theory Spec2Isabelle
  imports Complex_Main "HOL-Library.Sublist"
begin

section \<open>Strings and numbers of the host language\<close>

text \<open>
  A TypeScript string is modelled as an Isabelle \<open>string\<close>: one \<open>char\<close> stands for one
  code unit, and the model covers code units below 256. A TypeScript number is a double.
  The functions below only ever hold in it NaN, an infinity, or a double whose value is an
  integer (\<open>parseInt\<close> gives nothing else, and adding 1 keeps it so), which \<open>Num\<close>
  carries as that integer; a negative zero prints and counts like zero and is \<open>Num 0\<close>.
\<close>

datatype jsnum = NaN | PosInfinity | NegInfinity | Num int

definition is_ws :: "char \<Rightarrow> bool" where
  \<comment> \<open>white space and line terminators (what \<open>\s\<close>, \<open>trim\<close> and \<open>parseInt\<close> skip), below 256\<close>
  "is_ws c = (c \<in> set [CHR 0x09, CHR 0x0A, CHR 0x0B, CHR 0x0C, CHR 0x0D, CHR 0x20, CHR 0xA0])"

definition is_line_terminator :: "char \<Rightarrow> bool" where
  \<comment> \<open>what \<open>.\<close> does not match without the \<open>s\<close> flag, below 256\<close>
  "is_line_terminator c = (c = CHR 0x0A \<or> c = CHR 0x0D)"

definition is_digit :: "char \<Rightarrow> bool" where
  "is_digit c = (48 \<le> (of_char c :: nat) \<and> (of_char c :: nat) \<le> 57)"

definition digit_val :: "char \<Rightarrow> int" where
  "digit_val c = (of_char c :: int) - 48"

definition digits_value :: "string \<Rightarrow> int" where
  "digits_value ds = foldl (\<lambda>a c. 10 * a + digit_val c) 0 ds"

function bit_len :: "int \<Rightarrow> nat" where
  \<comment> \<open>the number of binary digits of a natural number\<close>
  "bit_len n = (if n \<le> 0 then 0 else Suc (bit_len (n div 2)))"
  by pat_completeness auto
termination
  by (relation "measure nat") auto

declare bit_len.simps [simp del]

definition round_to_double :: "int \<Rightarrow> int option" where
  \<comment> \<open>the double nearest to a natural number, \<open>None\<close> for the infinity. A double has a
      significand of 53 binary digits: below \<open>2 ^ 53\<close> every natural number is a double;
      a larger one is rounded to 53 digits, a tie going to the even significand, and what
      reaches \<open>2 ^ 1024\<close> is the infinity\<close>
  "round_to_double a =
     (if a < 2 ^ 53 then Some a
      else
        (let sh = bit_len a - 53;
             q = a div 2 ^ sh;
             r = a mod 2 ^ sh;
             half = 2 ^ (sh - 1);
             q' = (if half < r \<or> (r = half \<and> odd q) then q + 1 else q)
         in if 2 ^ 1024 \<le> q' * 2 ^ sh then None else Some (q' * 2 ^ sh)))"

definition to_number :: "int \<Rightarrow> jsnum" where
  \<comment> \<open>the number that stands for a mathematical integer\<close>
  "to_number i =
     (case round_to_double \<bar>i\<bar> of
        None \<Rightarrow> (if i < 0 then NegInfinity else PosInfinity)
      | Some a \<Rightarrow> Num (if i < 0 then - a else a))"

definition parseInt :: "string \<Rightarrow> jsnum" where
  \<comment> \<open>\<open>parseInt(s, 10)\<close>: skip white space, read a sign, read the longest run of digits;
      NaN when there is no digit, else the number for the integer that the digits
      write. (The language lets an implementation read the digits after the 20th as
      zeros; the model rounds the integer itself, as Node does.)\<close>
  "parseInt s =
     (let t = dropWhile is_ws s;
          neg = (t \<noteq> [] \<and> hd t = CHR ''-'');
          u = (if t \<noteq> [] \<and> (hd t = CHR ''-'' \<or> hd t = CHR ''+'') then tl t else t);
          ds = takeWhile is_digit u
      in if ds = [] then NaN
         else to_number ((if neg then - 1 else 1) * digits_value ds))"

definition digit_char :: "nat \<Rightarrow> char" where
  "digit_char d = char_of (48 + d)"

function string_of_nat :: "nat \<Rightarrow> string" where
  "string_of_nat n =
     (if n < 10 then [digit_char n] else string_of_nat (n div 10) @ [digit_char (n mod 10)])"
  by pat_completeness auto
termination
  by (relation "measure id") auto

declare string_of_nat.simps [simp del]

function decimal :: "int \<Rightarrow> string" where
  \<comment> \<open>the decimal digits of a natural number that is held in a number\<close>
  "decimal n =
     (if n < 10 then [digit_char (nat n)] else decimal (n div 10) @ [digit_char (nat (n mod 10))])"
  by pat_completeness auto
termination
  by (relation "measure nat") auto

declare decimal.simps [simp del]

fun first_some :: "'a option list \<Rightarrow> 'a option" where
  "first_some [] = None"
| "first_some (x # xs) = (case x of Some r \<Rightarrow> Some r | None \<Rightarrow> first_some xs)"

definition decimal_candidates :: "int \<Rightarrow> nat \<Rightarrow> (nat \<times> nat \<times> int) list" where
  \<comment> \<open>the ways to write the double \<open>v\<close> with \<open>k\<close> significant digits: the triples
      \<open>(k, n, s)\<close> where \<open>s\<close> has \<open>k\<close> digits and \<open>s * 10 ^ (n - k)\<close> is a number whose
      nearest double is \<open>v\<close>. Such a number has as many digits as \<open>v\<close> or one more, and
      only the two multiples of \<open>10 ^ (n - k)\<close> around \<open>v\<close> can be nearest to it\<close>
  "decimal_candidates v k =
     (let nd = length (decimal v) in
      concat (map (\<lambda>n.
        map (\<lambda>s. (k, n, s))
          (filter (\<lambda>s. k \<le> n \<and> 10 ^ (k - 1) \<le> s \<and> s < 10 ^ k
                       \<and> round_to_double (s * 10 ^ (n - k)) = Some v)
             [v div 10 ^ (n - k), v div 10 ^ (n - k) + 1]))
        [nd, Suc nd]))"

definition distance :: "int \<Rightarrow> nat \<times> nat \<times> int \<Rightarrow> int" where
  "distance v c = (case c of (k, n, s) \<Rightarrow> \<bar>s * 10 ^ (n - k) - v\<bar>)"

fun closest :: "int \<Rightarrow> (nat \<times> nat \<times> int) list \<Rightarrow> (nat \<times> nat \<times> int) option" where
  \<comment> \<open>among several ways, the one nearest to \<open>v\<close>; of two equally near, the even \<open>s\<close>\<close>
  "closest v [] = None"
| "closest v (c # cs) =
     (case closest v cs of
        None \<Rightarrow> Some c
      | Some d \<Rightarrow>
          if distance v c < distance v d \<or> (distance v c = distance v d \<and> even (snd (snd c)))
          then Some c else Some d)"

definition shortest_decimal :: "int \<Rightarrow> (nat \<times> nat \<times> int) option" where
  \<comment> \<open>the fewest digits that read back as \<open>v\<close>; 17 digits tell any two doubles apart\<close>
  "shortest_decimal v = first_some (map (\<lambda>k. closest v (decimal_candidates v k)) [1 ..< 18])"

definition nat_to_string :: "int \<Rightarrow> string" where
  \<comment> \<open>\<open>Number::toString\<close> of a double that is a natural number: the fewest digits that
      read back as the number, completed with zeros up to 21 digits and followed by an
      exponent beyond. Below \<open>2 ^ 53\<close> every natural number is a double, so those digits
      are all the digits of the number. A double always has such digits: the case
      \<open>None\<close> is there for the arguments that are not doubles, which no function below
      passes\<close>
  "nat_to_string v =
     (if v < 2 ^ 53 then decimal v
      else
        (case shortest_decimal v of
           None \<Rightarrow> decimal v
         | Some (k, n, s) \<Rightarrow>
             if n \<le> 21 then decimal s @ replicate (n - k) CHR ''0''
             else if k = 1 then decimal s @ ''e+'' @ string_of_nat (n - 1)
             else [hd (decimal s)] @ ''.'' @ tl (decimal s) @ ''e+'' @ string_of_nat (n - 1)))"

definition num_to_string :: "jsnum \<Rightarrow> string" where
  \<comment> \<open>a number inside a template literal\<close>
  "num_to_string x =
     (case x of
        NaN \<Rightarrow> ''NaN''
      | PosInfinity \<Rightarrow> ''Infinity''
      | NegInfinity \<Rightarrow> ''-Infinity''
      | Num i \<Rightarrow> if i < 0 then CHR ''-'' # nat_to_string (- i) else nat_to_string i)"

definition num_succ :: "jsnum \<Rightarrow> jsnum" where
  \<comment> \<open>\<open>x + 1\<close>: the double nearest to the sum\<close>
  "num_succ x = (case x of Num i \<Rightarrow> to_number (i + 1) | _ \<Rightarrow> x)"

fun split_char :: "char \<Rightarrow> string \<Rightarrow> string list" where
  \<comment> \<open>\<open>s.split(d)\<close> for a one-character separator\<close>
  "split_char d [] = [[]]"
| "split_char d (c # cs) =
     (if c = d then [] # split_char d cs
      else (case split_char d cs of [] \<Rightarrow> [[c]] | p # ps \<Rightarrow> (c # p) # ps))"

definition nth_opt :: "'a list \<Rightarrow> nat \<Rightarrow> 'a option" where
  \<comment> \<open>\<open>xs[i]\<close>, \<open>None\<close> for \<open>undefined\<close>\<close>
  "nth_opt xs i = (if i < length xs then Some (xs ! i) else None)"

definition or_default :: "string option \<Rightarrow> string \<Rightarrow> string" where
  \<comment> \<open>\<open>x || d\<close> on a string that may be undefined: the empty string is falsy\<close>
  "or_default x d = (case x of None \<Rightarrow> d | Some s \<Rightarrow> if s = [] then d else s)"

fun indexOf :: "string \<Rightarrow> string \<Rightarrow> nat option" where
  \<comment> \<open>\<open>s.indexOf(pat)\<close>: the first position where \<open>pat\<close> occurs; \<open>None\<close> stands for \<open>-1\<close>\<close>
  "indexOf pat [] = (if pat = [] then Some 0 else None)"
| "indexOf pat (c # cs) =
     (if prefix pat (c # cs) then Some 0 else map_option Suc (indexOf pat cs))"

definition str_includes :: "string \<Rightarrow> string \<Rightarrow> bool" where
  \<comment> \<open>\<open>s.includes(pat)\<close>\<close>
  "str_includes pat s = (indexOf pat s \<noteq> None)"

definition indexOf_from :: "string \<Rightarrow> nat \<Rightarrow> string \<Rightarrow> nat option" where
  \<comment> \<open>\<open>s.indexOf(pat, start)\<close>\<close>
  "indexOf_from pat start s = map_option (\<lambda>j. start + j) (indexOf pat (drop start s))"

definition index_plus_one :: "nat option \<Rightarrow> nat" where
  \<comment> \<open>\<open>s.indexOf(..) + 1\<close>, which is 0 when nothing was found\<close>
  "index_plus_one r = (case r of None \<Rightarrow> 0 | Some j \<Rightarrow> j + 1)"

fun join :: "string \<Rightarrow> string list \<Rightarrow> string" where
  \<comment> \<open>\<open>xs.join(sep)\<close>\<close>
  "join sep [] = []"
| "join sep [x] = x"
| "join sep (x # y # ys) = x @ sep @ join sep (y # ys)"

definition trim :: "string \<Rightarrow> string" where
  "trim s = rev (dropWhile is_ws (rev (dropWhile is_ws s)))"

fun search :: "(string \<Rightarrow> 'a option) \<Rightarrow> string \<Rightarrow> (nat \<times> 'a) option" where
  \<comment> \<open>an unanchored regular expression: the anchored matcher \<open>m\<close> is tried at every
      position from the left, the end of the string included; the result carries the
      position of the match\<close>
  "search m [] = map_option (Pair 0) (m [])"
| "search m (c # cs) =
     (case m (c # cs) of Some r \<Rightarrow> Some (0, r)
      | None \<Rightarrow> map_option (\<lambda>(i, r). (Suc i, r)) (search m cs))"

fun substitute :: "string \<Rightarrow> string \<Rightarrow> string \<Rightarrow> string \<Rightarrow> string" where
  \<comment> \<open>the replacement text of \<open>String.prototype.replace\<close> for a string pattern:
      \<open>$$\<close> is a dollar sign, \<open>$&\<close> the matched text, \<open>$`\<close> the text before the match and
      \<open>$'\<close> the text after it; there are no capture groups, so every other dollar sign
      stands for itself\<close>
  "substitute matched pre post [] = []"
| "substitute matched pre post [c] = [c]"
| "substitute matched pre post (c # d # r) =
     (if c = CHR 0x24 \<and> d = CHR 0x24 then CHR 0x24 # substitute matched pre post r
      else if c = CHR 0x24 \<and> d = CHR ''&'' then matched @ substitute matched pre post r
      else if c = CHR 0x24 \<and> d = CHR 0x60 then pre @ substitute matched pre post r
      else if c = CHR 0x24 \<and> d = CHR 0x27 then post @ substitute matched pre post r
      else c # substitute matched pre post (d # r))"

definition replace_first :: "string \<Rightarrow> string \<Rightarrow> string \<Rightarrow> string" where
  \<comment> \<open>\<open>s.replace(pat, repl)\<close> with a string pattern: the first occurrence only\<close>
  "replace_first pat repl s =
     (case indexOf pat s of
        None \<Rightarrow> s
      | Some i \<Rightarrow>
          take i s
          @ substitute pat (take i s) (drop (i + length pat) s) repl
          @ drop (i + length pat) s)"

section \<open>Document merge: \<open>addNewBulletsToBody\<close> (handlers/prService.ts)\<close>

text \<open>
  The section header is spliced into a regular expression as it is. The model reads it as
  literal text, which is what the expression does for a header without regular-expression
  metacharacters, as the two headers of the service are.
\<close>

definition regex_plain :: "string \<Rightarrow> bool" where
  \<comment> \<open>none of the metacharacters \<open>\ ^ $ . * + ? ( ) [ ] { } |\<close>\<close>
  "regex_plain h = (\<forall>c \<in> set h. c \<notin> set [CHR 0x5C, CHR 0x5E, CHR 0x24, CHR 0x2E, CHR 0x2A,
     CHR 0x2B, CHR 0x3F, CHR 0x28, CHR 0x29, CHR 0x5B, CHR 0x5D, CHR 0x7B, CHR 0x7D, CHR 0x7C])"

definition FEATURES_SECTION :: string where
  "FEATURES_SECTION = ''New Features''"

definition BUGS_SECTION :: string where
  "BUGS_SECTION = ''Bugs / Improvements''"

definition lazy_until :: "string \<Rightarrow> string \<Rightarrow> string" where
  \<comment> \<open>what a lazy \<open>.*?\<close> under the \<open>s\<close> flag takes when \<open>(stop|$)\<close> follows it: the text
      before the first occurrence of \<open>stop\<close>, or all of it\<close>
  "lazy_until stop s = take (case indexOf stop s of None \<Rightarrow> length s | Some j \<Rightarrow> j) s"

definition match_from_to :: "string \<Rightarrow> string \<Rightarrow> string \<Rightarrow> (nat \<times> string) option" where
  \<comment> \<open>\<open>s.match(/(start.*?)(stop|$)/s)\<close> for literal \<open>start\<close> and \<open>stop\<close>: position and
      first group. The expression can finish wherever \<open>start\<close> matches, so the match
      begins at the first occurrence of \<open>start\<close>\<close>
  "match_from_to start stop s =
     (case indexOf start s of
        None \<Rightarrow> None
      | Some i \<Rightarrow> Some (i, start @ lazy_until stop (drop (i + length start) s)))"

definition match_section :: "string \<Rightarrow> string \<Rightarrow> (nat \<times> string) option" where
  \<comment> \<open>\<open>prBody.match(new RegExp(`(## ${section}.*?)(\\n## |$)`, 's'))\<close>\<close>
  "match_section section prBody = match_from_to (''## '' @ section) ''\<newline>## '' prBody"

definition match_comment_at :: "string \<Rightarrow> nat option" where
  \<comment> \<open>\<open>/<!--.*?-->\n/\<close> anchored at the start of \<open>s\<close>: the length of the match. Without
      the \<open>s\<close> flag \<open>.\<close> stays on the line, so the comment is the rest of the line, which
      must end with \<open>-->\<close> and a line feed\<close>
  "match_comment_at s =
     (if prefix ''<!--'' s then
        (let t = drop 4 s;
             run = takeWhile (\<lambda>c. \<not> is_line_terminator c) t;
             after = drop (length run) t
         in if suffix ''-->'' run \<and> prefix ''\<newline>'' after then Some (4 + length run + 1)
            else None)
      else None)"

definition insertPoint :: "string \<Rightarrow> nat" where
  "insertPoint sectionContent =
     (case search match_comment_at sectionContent of
        Some (p, len) \<Rightarrow> index_plus_one (indexOf_from ''\<newline>'' len sectionContent)
      | None \<Rightarrow> index_plus_one (indexOf ''\<newline>'' sectionContent))"

definition add_bullets :: "string \<Rightarrow> string \<Rightarrow> string list \<Rightarrow> string" where
  \<comment> \<open>the block the function runs once for the feature bullets and once for the bug
      bullets\<close>
  "add_bullets prBody section bullets =
     (if length bullets > 0 then
        (case match_section section prBody of
           None \<Rightarrow> prBody
         | Some (i, sectionContent) \<Rightarrow>
             (let ip = insertPoint sectionContent;
                  newSectionContent =
                    take ip sectionContent @ join ''\<newline>'' bullets
                    @ (if length bullets > 0 then ''\<newline>'' else [])
                    @ drop ip sectionContent
              in replace_first sectionContent newSectionContent prBody))
      else prBody)"

definition ensure_section :: "string \<Rightarrow> string \<Rightarrow> string \<Rightarrow> string" where
  \<comment> \<open>"Create section headers if they don't exist"\<close>
  "ensure_section prBody section placeholder =
     (if \<not> str_includes (''## '' @ section) prBody
      then prBody @ ''\<newline>\<newline>## '' @ section @ ''\<newline><!-- '' @ placeholder @ '' -->\<newline>''
      else prBody)"

definition create_missing_sections :: "string \<Rightarrow> string \<Rightarrow> string \<Rightarrow> string" where
  "create_missing_sections prBody featuresSection bugsSection =
     ensure_section
       (ensure_section prBody featuresSection ''New feature summaries will be added here'')
       bugsSection ''Bug fixes and improvements will be added here''"

definition addNewBulletsToBody ::
  "string \<Rightarrow> string \<Rightarrow> string list \<Rightarrow> string \<Rightarrow> string list \<Rightarrow> string" where
  "addNewBulletsToBody prBody featuresSection featureBullets bugsSection bugBullets =
     add_bullets
       (add_bullets (create_missing_sections prBody featuresSection bugsSection)
          featuresSection featureBullets)
       bugsSection bugBullets"

section \<open>Section update: \<open>updateSection\<close> (utils/helpers.ts)\<close>

fun find_heading :: "bool \<Rightarrow> string \<Rightarrow> nat option" where
  \<comment> \<open>\<open>s.match(/^## /m)?.index\<close>: under the \<open>m\<close> flag \<open>^\<close> matches at the start of the
      text and after every line terminator; the flag says whether the current position is
      such a place\<close>
  "find_heading at_start [] = None"
| "find_heading at_start (c # cs) =
     (if at_start \<and> prefix ''## '' (c # cs) then Some 0
      else map_option Suc (find_heading (is_line_terminator c) cs))"

definition match_placeholder_at :: "string \<Rightarrow> nat option" where
  \<comment> \<open>\<open>/<!-- .*? -->\n?/\<close> anchored at the start of \<open>s\<close>: the length of the match. The
      lazy \<open>.*?\<close> stops at the first \<open> -->\<close> on the line; a line feed after it is taken
      too\<close>
  "match_placeholder_at s =
     (if prefix ''<!-- '' s then
        (case indexOf '' -->'' (takeWhile (\<lambda>c. \<not> is_line_terminator c) (drop 5 s)) of
           None \<Rightarrow> None
         | Some n \<Rightarrow> Some (if prefix ''\<newline>'' (drop (n + 9) s) then n + 10 else n + 9))
      else None)"

fun remove_placeholders :: "string \<Rightarrow> string" where
  \<comment> \<open>\<open>s.replace(/<!-- .*? -->\n?/g, '')\<close>; a match is never empty, so dropping the rest
      of it after the first character drops all of it\<close>
  "remove_placeholders [] = []"
| "remove_placeholders (c # cs) =
     (case match_placeholder_at (c # cs) of
        Some len \<Rightarrow> remove_placeholders (drop (len - 1) cs)
      | None \<Rightarrow> c # remove_placeholders cs)"

definition updateSection :: "string \<Rightarrow> string \<Rightarrow> string \<Rightarrow> string" where
  \<comment> \<open>\<open>body.includes(sectionHeader)\<close> is \<open>body.indexOf(sectionHeader) !== -1\<close>, so the
      test and the search are one case distinction here\<close>
  "updateSection body sectionHeader newEntry =
     (case indexOf sectionHeader body of
        None \<Rightarrow> body @ ''\<newline>\<newline>'' @ sectionHeader @ ''\<newline>'' @ newEntry
      | Some sectionPos \<Rightarrow>
          (let rest = drop (sectionPos + length sectionHeader) body;
               nextSectionPos =
                 (case find_heading True rest of
                    Some j \<Rightarrow> sectionPos + length sectionHeader + j
                  | None \<Rightarrow> length body);
               sectionContent =
                 take (nextSectionPos - (sectionPos + length sectionHeader)) rest;
               cleanSectionContent = remove_placeholders sectionContent;
               existingContent = trim cleanSectionContent;
               updatedSection =
                 (if existingContent = [] then sectionHeader @ ''\<newline>'' @ newEntry
                  else if prefix ''\<newline>'' existingContent then
                    sectionHeader @ ''\<newline>'' @ newEntry @ existingContent
                  else sectionHeader @ ''\<newline>'' @ newEntry @ ''\<newline>'' @ existingContent)
           in take sectionPos body @ updatedSection @ drop nextSectionPos body))"

section \<open>The span of a section, as the specification speaks of it\<close>

text \<open>
  The specification reads a document line by line: a section begins at the line that is
  its header, and the content between one header and the next, or the end of the
  document, belongs to it. A header is a line that starts with the marker \<open>## \<close>.
\<close>

definition line_start :: "string \<Rightarrow> nat \<Rightarrow> bool" where
  \<comment> \<open>position \<open>i\<close> is the start of a line\<close>
  "line_start body i = (i = 0 \<or> (i \<le> length body \<and> body ! (i - 1) = CHR 0x0A))"

definition line_at :: "string \<Rightarrow> nat \<Rightarrow> string" where
  \<comment> \<open>the text from position \<open>i\<close> up to the end of its line\<close>
  "line_at body i = takeWhile (\<lambda>c. c \<noteq> CHR 0x0A) (drop i body)"

definition section_span :: "string \<Rightarrow> string \<Rightarrow> (nat \<times> nat) option" where
  \<comment> \<open>the section whose header line is \<open>header\<close>: from the start of the first line that
      is this header up to the start of the next line that begins with \<open>## \<close>, or to the
      end of the document\<close>
  "section_span header body =
     (case find (\<lambda>i. line_start body i \<and> line_at body i = header) [0 ..< Suc (length body)] of
        None \<Rightarrow> None
      | Some a \<Rightarrow>
          Some (a,
            case find (\<lambda>i. line_start body i \<and> prefix ''## '' (drop i body))
                   [Suc a ..< Suc (length body)] of
              None \<Rightarrow> length body
            | Some e \<Rightarrow> e))"

section \<open>Version policy: \<open>calculateNewVersion\<close> (utils/helpers.ts)\<close>

definition versionComponent :: "string \<Rightarrow> nat \<Rightarrow> jsnum" where
  \<comment> \<open>\<open>parseInt(versionParts[i] || '0', 10)\<close>\<close>
  "versionComponent currentVersion i =
     parseInt (or_default (nth_opt (split_char CHR ''.'' currentVersion) i) ''0'')"

definition calculateNewVersion :: "string \<Rightarrow> string \<Rightarrow> string" where
  "calculateNewVersion currentVersion releaseType =
     (let major = versionComponent currentVersion 0;
          minor = versionComponent currentVersion 1;
          patch = versionComponent currentVersion 2
      in if releaseType = ''major'' then num_to_string (num_succ major) @ ''.0.0''
         else if releaseType = ''minor'' then
           num_to_string major @ ''.'' @ num_to_string (num_succ minor) @ ''.0''
         else
           num_to_string major @ ''.'' @ num_to_string minor @ ''.''
             @ num_to_string (num_succ patch))"

section \<open>Configuration (handlers/configService.ts)\<close>

text \<open>
  \<open>RepoConfig\<close> with every field optional, as the interface declares it. The fields are
  named after the path that reaches them.
\<close>

record branches_cfg =
  br_release :: "string option"
  br_staging :: "string option"

record pr_cfg =
  pr_draftTitle :: "string option"
  pr_draftBody :: "string option"
  pr_featuresSection :: "string option"

record release_cfg =
  rel_prefix :: "string option"
  rel_createDraft :: "bool option"
  rel_prerelease :: "bool option"
  rel_generateReleaseNotes :: "bool option"

record changelog_cfg =
  cl_file :: "string option"
  cl_headerFormat :: "string option"
  cl_entryFormat :: "string option"

record releaseTags_cfg =
  tag_major :: "string option"
  tag_minor :: "string option"
  tag_patch :: "string option"

record openai_cfg =
  oa_model :: "string option"
  oa_temperature :: "rat option"
  oa_max_tokens :: "int option"

record ai_cfg =
  ai_enabled :: "bool option"
  ai_openai :: "openai_cfg option"
  ai_featureSummaryPrompt :: "string option"
  ai_versionTypePrompt :: "string option"

record RepoConfig =
  cfg_branches :: "branches_cfg option"
  cfg_pr :: "pr_cfg option"
  cfg_release :: "release_cfg option"
  cfg_changelog :: "changelog_cfg option"
  cfg_releaseTags :: "releaseTags_cfg option"
  cfg_ai :: "ai_cfg option"

definition DEFAULT_CONFIG :: RepoConfig where
  "DEFAULT_CONFIG = \<lparr>
     cfg_branches = Some \<lparr> br_release = Some ''main'', br_staging = Some ''staging'' \<rparr>,
     cfg_pr = Some \<lparr>
       pr_draftTitle = Some ''{major}.{minor}.{patch} Release: {version}'',
       pr_draftBody = Some (''## Features to be released\<newline>\<newline>{features}\<newline>\<newline>---\<newline>''
         @ ''*This PR was automatically created by the Release Manager.*\<newline>''
         @ ''*Last updated: {timestamp}*''),
       pr_featuresSection = Some ''## Features to be released'' \<rparr>,
     cfg_release = Some \<lparr>
       rel_prefix = Some ''v'', rel_createDraft = Some False, rel_prerelease = Some False,
       rel_generateReleaseNotes = Some True \<rparr>,
     cfg_changelog = Some \<lparr>
       cl_file = Some ''CHANGELOG.md'',
       cl_headerFormat = Some ''# Changelog\<newline>\<newline>'',
       cl_entryFormat = Some ''## {version} ({date})\<newline>\<newline>{features}\<newline>\<newline>'' \<rparr>,
     cfg_releaseTags = Some \<lparr>
       tag_major = Some ''[MAJOR]'', tag_minor = Some ''[MINOR]'', tag_patch = Some ''[PATCH]'' \<rparr>,
     cfg_ai = Some \<lparr>
       ai_enabled = Some True,
       ai_openai = Some \<lparr>
         oa_model = Some ''gpt-4o-mini'', oa_temperature = Some (2 / 10), oa_max_tokens = Some 2048 \<rparr>,
       ai_featureSummaryPrompt = Some (''You are a helpful assistant that generates concise ''
         @ ''summaries of feature changes in a GitHub repository. Focus on business value ''
         @ ''and benefits over technical details.''),
       ai_versionTypePrompt = Some (''You are a versioning expert who helps determine the ''
         @ ''appropriate semantic version increment type for code changes. Analyze the ''
         @ ''changes and recommend MAJOR for breaking changes, MINOR for new features, or ''
         @ ''PATCH for bug fixes'') \<rparr> \<rparr>"

text \<open>
  An error is a failed request, which carries a status, or any other thrown value, which
  has no \<open>status\<close> property.
\<close>

datatype error = RequestError nat | Thrown string

text \<open>The service object. Its other fields (context, client, logger) hold no state.\<close>

record service =
  config :: RepoConfig

record pull_request =
  pr_number :: nat
  pr_title :: string
  pr_body :: "string option"
  pr_draft :: "bool option"
  pr_merged :: bool
  pr_head_ref :: string
  pr_base_ref :: string
  pr_user_login :: "string option"
  pr_html_url :: string

datatype comment =
    Text string
  | ReleasePublished string string
    \<comment> \<open>the announcement "Release [version](url) has been published!"\<close>

datatype "write" =
    PullCreate string string string
    \<comment> \<open>title, head, base\<close>
  | PullUpdateBody nat string
  | PullUpdateTitle nat string
  | CommentCreate nat comment
  | ReleaseCreate string string string string
    \<comment> \<open>tag name, name, body, target branch\<close>

datatype content_data = FileData string | OtherData
  \<comment> \<open>what \<open>repos.getContent\<close> returns: a file, which has \<open>content\<close>, or something else\<close>

text \<open>
  The answers of the outside world to the requests of one event, and the functions of the
  host and of the service that the properties below do not depend on: the JSON parser and
  the deep merge of configurations, the parsing of a summary into bullets, the formatting
  of release notes, the clock.
\<close>

record 'j world =
  w_has_api_key :: bool
  w_has_repository :: bool
  w_owner :: string
  w_getContent :: "error + content_data"
  w_decode_base64 :: "string \<Rightarrow> string"
  w_json_parse :: "string \<Rightarrow> 'j option"
  w_mergeConfigs :: "RepoConfig \<Rightarrow> 'j \<Rightarrow> error + RepoConfig"
  w_prDetails :: "error option"
  w_chat_summary :: "error + string option list"
  w_chat_version :: "error + string option list"
  w_list_pulls :: "string \<Rightarrow> string \<Rightarrow> error + pull_request list"
  w_latestRelease :: "error + string"
  w_listTags :: "error + string list"
  w_pulls_create :: "error + nat"
  w_pulls_get :: "nat \<Rightarrow> error + pull_request"
  w_pulls_update :: "error option"
  w_createComment :: "error option"
  w_createRelease :: "error + string"
  w_parseSummary :: "string \<Rightarrow> string list \<times> string list"
  w_now :: string
  w_formatReleaseNotes :: "string \<Rightarrow> string \<Rightarrow> string"

text \<open>
  An asynchronous method either returns or throws, after the remote writes it has made:
  its outcome is the list of those writes and the error or the value.
\<close>

type_synonym 'a io = "write list \<times> (error + 'a)"

definition return_io :: "'a \<Rightarrow> 'a io" where
  "return_io a = ([], Inr a)"

definition bind_io :: "'a io \<Rightarrow> ('a \<Rightarrow> 'b io) \<Rightarrow> 'b io" where
  \<comment> \<open>\<open>await\<close> one step, then go on; a thrown error ends the method\<close>
  "bind_io m f =
     (case m of
        (ws, Inl e) \<Rightarrow> (ws, Inl e)
      | (ws, Inr a) \<Rightarrow> (case f a of (ws', r) \<Rightarrow> (ws @ ws', r)))"

definition read_io :: "error + 'a \<Rightarrow> 'a io" where
  \<comment> \<open>a request that reads\<close>
  "read_io r = ([], r)"

definition write_io :: "write \<Rightarrow> error + 'a \<Rightarrow> 'a io" where
  \<comment> \<open>a request that writes: the write is made unless the request fails\<close>
  "write_io w r = (case r of Inl e \<Rightarrow> ([], Inl e) | Inr a \<Rightarrow> ([w], Inr a))"

definition outcome :: "error option \<Rightarrow> error + unit" where
  "outcome r = (case r of None \<Rightarrow> Inr () | Some e \<Rightarrow> Inl e)"

definition new_PRService :: "'j world \<Rightarrow> error + service" where
  \<comment> \<open>the constructor\<close>
  "new_PRService w =
     (if \<not> w_has_api_key w then Inl (Thrown ''OPENAI_API_KEY environment variable is not set'')
      else if \<not> w_has_repository w then Inl (Thrown ''No repository found'')
      else Inr \<lparr> config = DEFAULT_CONFIG \<rparr>)"

definition loadConfig :: "service \<Rightarrow> 'j world \<Rightarrow> service \<times> (error + RepoConfig)" where
  \<comment> \<open>the service is returned as it was given: no statement of the method assigns to
      \<open>this.config\<close>. The \<open>catch\<close> turns an error of status 404 into the defaults and
      throws every other error again\<close>
  "loadConfig svc w =
     (let attempt =
        (case w_getContent w of
           Inl e \<Rightarrow> Inl e
         | Inr configFile \<Rightarrow>
             (case configFile of
                FileData content \<Rightarrow>
                  (case w_json_parse w (w_decode_base64 w content) of
                     None \<Rightarrow> Inl (Thrown ''SyntaxError'')
                   | Some repoConfig \<Rightarrow> w_mergeConfigs w DEFAULT_CONFIG repoConfig)
              | OtherData \<Rightarrow> Inl (Thrown ''Invalid config file format'')))
      in (svc,
          case attempt of
            Inl e \<Rightarrow> if e = RequestError 404 then Inr DEFAULT_CONFIG else Inl e
          | Inr mergedConfig \<Rightarrow> Inr mergedConfig))"

definition aiEnabled :: "service \<Rightarrow> bool" where
  \<comment> \<open>\<open>this.config.ai?.enabled\<close> is truthy\<close>
  "aiEnabled svc = (Option.bind (cfg_ai (config svc)) ai_enabled = Some True)"

definition callOpenAI :: "service \<Rightarrow> error + string option list \<Rightarrow> error + string option" where
  \<comment> \<open>the second argument is the answer of \<open>chat.completions.create\<close>: the \<open>content\<close> of
      each choice. \<open>None\<close> in the result is \<open>null\<close>. A model that is the empty string, a
      temperature or a token limit that is 0 are falsy\<close>
  "callOpenAI svc chat =
     (let ai = cfg_ai (config svc);
          model = Option.bind (Option.bind ai ai_openai) oa_model;
          temperature = Option.bind (Option.bind ai ai_openai) oa_temperature;
          max_tokens = Option.bind (Option.bind ai ai_openai) oa_max_tokens
      in if \<not> aiEnabled svc then Inr None
         else if model = None \<or> model = Some [] \<or> temperature = None \<or> temperature = Some 0
                 \<or> max_tokens = None \<or> max_tokens = Some 0
         then Inl (Thrown ''OpenAI configuration is missing required fields'')
         else
           (case chat of
              Inl e \<Rightarrow> Inl e
            | Inr choices \<Rightarrow>
                (case choices of
                   [] \<Rightarrow> Inl (Thrown ''TypeError'')
                 | content # _ \<Rightarrow>
                     (if content = None \<or> content = Some []
                      then Inl (Thrown ''No response from OpenAI'')
                      else Inr content))))"

section \<open>The pull-request service (handlers/prService.ts)\<close>

definition nullish :: "'a option \<Rightarrow> 'a \<Rightarrow> 'a" where
  \<comment> \<open>\<open>x ?? d\<close>\<close>
  "nullish x d = (case x of None \<Rightarrow> d | Some v \<Rightarrow> v)"

definition stagingBranch :: "service \<Rightarrow> string" where
  \<comment> \<open>\<open>this.config.branches?.staging ?? 'staging'\<close>\<close>
  "stagingBranch svc = nullish (Option.bind (cfg_branches (config svc)) br_staging) ''staging''"

definition releaseBranch :: "service \<Rightarrow> string" where
  \<comment> \<open>\<open>this.config.branches?.release ?? 'main'\<close>\<close>
  "releaseBranch svc = nullish (Option.bind (cfg_branches (config svc)) br_release) ''main''"

definition releasePrefix :: "service \<Rightarrow> string" where
  \<comment> \<open>\<open>this.config.release?.prefix ?? 'v'\<close>\<close>
  "releasePrefix svc = nullish (Option.bind (cfg_release (config svc)) rel_prefix) ''v''"

definition ascii_upper :: "char \<Rightarrow> char" where
  "ascii_upper c =
     (if 97 \<le> (of_char c :: nat) \<and> (of_char c :: nat) \<le> 122 then char_of ((of_char c :: nat) - 32)
      else c)"

definition ascii_lower :: "char \<Rightarrow> char" where
  "ascii_lower c =
     (if 65 \<le> (of_char c :: nat) \<and> (of_char c :: nat) \<le> 90 then char_of ((of_char c :: nat) + 32)
      else c)"

definition toUpperCase :: "string \<Rightarrow> string" where
  \<comment> \<open>the service applies it to texts of ASCII letters only\<close>
  "toUpperCase s = map ascii_upper s"

definition toLowerCase :: "string \<Rightarrow> string" where
  "toLowerCase s = map ascii_lower s"

fun ci_prefix :: "string \<Rightarrow> string \<Rightarrow> bool" where
  \<comment> \<open>a literal of ASCII characters under the \<open>i\<close> flag, anchored at the start of the
      text: a character matches when it is the pattern's character in either case\<close>
  "ci_prefix [] s = True"
| "ci_prefix (p # ps) [] = False"
| "ci_prefix (p # ps) (c # cs) = (ascii_upper p = ascii_upper c \<and> ci_prefix ps cs)"

definition is_draft :: "pull_request \<Rightarrow> bool" where
  \<comment> \<open>\<open>pr.draft === true\<close>\<close>
  "is_draft p = (pr_draft p = Some True)"

definition findStagingToReleasePR :: "service \<Rightarrow> 'j world \<Rightarrow> pull_request option" where
  \<comment> \<open>\<open>None\<close> is \<open>undefined\<close>; an error of a listing is caught and gives \<open>undefined\<close>\<close>
  "findStagingToReleasePR svc w =
     (case w_list_pulls w (w_owner w @ '':'' @ stagingBranch svc) (releaseBranch svc) of
        Inl e \<Rightarrow> None
      | Inr prs \<Rightarrow>
          if length prs = 0 then
            (case w_list_pulls w (stagingBranch svc) (releaseBranch svc) of
               Inl e \<Rightarrow> None
             | Inr simplePrs \<Rightarrow>
                 if length simplePrs > 0 then
                   (case find is_draft simplePrs of
                      Some targetPR \<Rightarrow> Some targetPR
                    | None \<Rightarrow> nth_opt simplePrs 0)
                 else None)
          else
            (case find is_draft prs of
               Some draftPR \<Rightarrow> Some draftPR
             | None \<Rightarrow> if length prs > 0 then nth_opt prs 0 else None))"

definition strip_prefix :: "string \<Rightarrow> string \<Rightarrow> string" where
  \<comment> \<open>\<open>s.replace(/^p/, '')\<close> for a literal \<open>p\<close>\<close>
  "strip_prefix p s = (if prefix p s then drop (length p) s else s)"

definition getCurrentVersion :: "service \<Rightarrow> 'j world \<Rightarrow> string" where
  \<comment> \<open>never throws: every error ends in \<open>0.0.0\<close>\<close>
  "getCurrentVersion svc w =
     (case w_latestRelease w of
        Inr tag_name \<Rightarrow> strip_prefix ''v'' tag_name
      | Inl _ \<Rightarrow>
          (case w_listTags w of
             Inl _ \<Rightarrow> ''0.0.0''
           | Inr tags \<Rightarrow>
               (case tags of
                  name # _ \<Rightarrow> strip_prefix (releasePrefix svc) name
                | [] \<Rightarrow> ''0.0.0'')))"

definition updatePRTitleWithInfo ::
  "service \<Rightarrow> 'j world \<Rightarrow> nat \<Rightarrow> string \<Rightarrow> string \<Rightarrow> unit io" where
  "updatePRTitleWithInfo svc w prNumber versionType summary =
     (let currentVersion = getCurrentVersion svc w;
          newVersion = calculateNewVersion currentVersion (toLowerCase versionType);
          newTitle = versionType @ '' Release: '' @ releasePrefix svc @ newVersion @ '': '' @ summary
      in write_io (PullUpdateTitle prNumber newTitle) (outcome (w_pulls_update w)))"

definition BUMP_CLASSES :: "string list" where
  "BUMP_CLASSES = [''MAJOR'', ''MINOR'', ''PATCH'']"

definition match_bump :: "string \<Rightarrow> string option" where
  \<comment> \<open>\<open>(MAJOR|MINOR|PATCH)\<close> under the \<open>i\<close> flag, anchored: the text of the group\<close>
  "match_bump s =
     first_some (map (\<lambda>b. if ci_prefix b s then Some (take (length b) s) else None) BUMP_CLASSES)"

definition match_version_at :: "string \<Rightarrow> string option" where
  \<comment> \<open>\<open>/VERSION_TYPE:\s*(MAJOR|MINOR|PATCH)/i\<close> anchored at the start of \<open>s\<close>: the group.
      The group starts with a letter, so \<open>\s*\<close> takes all the white space\<close>
  "match_version_at s =
     (if ci_prefix ''VERSION_TYPE:'' s then match_bump (dropWhile is_ws (drop 13 s)) else None)"

definition lazy_line :: "string \<Rightarrow> string option" where
  \<comment> \<open>\<open>(.+?)(?:\n|$)\<close> anchored: \<open>.\<close> stays on the line, so the group is the rest of the
      line, which must not be empty and must end with a line feed or with the text\<close>
  "lazy_line s =
     (let run = takeWhile (\<lambda>c. \<not> is_line_terminator c) s;
          after = drop (length run) s
      in if run \<noteq> [] \<and> (after = [] \<or> prefix ''\<newline>'' after) then Some run else None)"

definition match_summary_at :: "string \<Rightarrow> string option" where
  \<comment> \<open>\<open>/SUMMARY:\s*(.+?)(?:\n|$)/i\<close> anchored at the start of \<open>s\<close>: the group. The greedy
      \<open>\s*\<close> first takes all the white space and gives it back one character at a time
      until the rest matches\<close>
  "match_summary_at s =
     (if ci_prefix ''SUMMARY:'' s then
        (let r = drop 8 s; n = length (takeWhile is_ws r)
         in first_some (map (\<lambda>k. lazy_line (drop k r)) (rev [0 ..< Suc n])))
      else None)"

definition DEFAULT_SUMMARY :: string where
  "DEFAULT_SUMMARY = ''New features and improvements''"

definition oneLine :: "string \<Rightarrow> string" where
  \<comment> \<open>"Limit summary to 60 characters"\<close>
  "oneLine summary = (if length summary > 60 then take 57 summary @ ''...'' else summary)"

definition updatePRTitle :: "service \<Rightarrow> 'j world \<Rightarrow> nat \<Rightarrow> string \<Rightarrow> unit io" where
  "updatePRTitle svc w prNumber aiSummary =
     bind_io (read_io (w_pulls_get w prNumber)) (\<lambda>pr.
     bind_io (read_io (callOpenAI svc (w_chat_version w))) (\<lambda>response.
       if response = None \<or> response = Some [] then
         updatePRTitleWithInfo svc w prNumber ''PATCH'' DEFAULT_SUMMARY
       else
         (let r = nullish response [];
              versionType =
                (case search match_version_at r of
                   Some (i, g) \<Rightarrow> toUpperCase g
                 | None \<Rightarrow> ''PATCH'');
              summary =
                (case search match_summary_at r of
                   Some (i, g) \<Rightarrow> trim g
                 | None \<Rightarrow> DEFAULT_SUMMARY)
          in updatePRTitleWithInfo svc w prNumber versionType (oneLine summary))))"

definition match_last_updated_at :: "string \<Rightarrow> nat option" where
  \<comment> \<open>\<open>/\*Last updated:.*\*/\<close> anchored: the length of the match. The greedy \<open>.*\<close> stays on
      the line and ends before the last asterisk of it\<close>
  "match_last_updated_at s =
     (if prefix ''*Last updated:'' s then
        (let run = takeWhile (\<lambda>c. \<not> is_line_terminator c) (drop 14 s)
         in if CHR ''*'' \<in> set run
            then Some (14 + (length run - length (takeWhile (\<lambda>c. c \<noteq> CHR ''*'') (rev run))))
            else None)
      else None)"

definition replace_match :: "(string \<Rightarrow> nat option) \<Rightarrow> string \<Rightarrow> string \<Rightarrow> string" where
  \<comment> \<open>\<open>s.replace(re, repl)\<close> for an expression without the \<open>g\<close> flag and without groups,
      given by its anchored matcher: the first match only\<close>
  "replace_match m repl s =
     (case search m s of
        None \<Rightarrow> s
      | Some (i, n) \<Rightarrow>
          take i s
          @ substitute (take n (drop i s)) (take i s) (drop (i + n) s) repl
          @ drop (i + n) s)"

definition attribution :: "pull_request \<Rightarrow> string \<Rightarrow> string" where
  \<comment> \<open>\<open>`- ${bullet} (via [#${sourcePR.number}](${prLink}) by @${prAuthor})`\<close>\<close>
  "attribution sourcePR bullet =
     ''- '' @ bullet @ '' (via [#'' @ string_of_nat (pr_number sourcePR) @ ''](''
       @ pr_html_url sourcePR @ '') by @'' @ or_default (pr_user_login sourcePR) ''Unknown'' @ '')''"

definition updatePRWithAISummary ::
  "service \<Rightarrow> 'j world \<Rightarrow> pull_request \<Rightarrow> nat \<Rightarrow> string \<Rightarrow> unit io" where
  "updatePRWithAISummary svc w sourcePR prNumber aiSummary =
     bind_io (read_io (w_pulls_get w prNumber)) (\<lambda>pr.
       (let prBody = or_default (pr_body pr) [];
            parsedSections = w_parseSummary w aiSummary;
            featureBulletsWithAttribution = map (attribution sourcePR) (fst parsedSections);
            bugBulletsWithAttribution = map (attribution sourcePR) (snd parsedSections);
            prBody1 =
              addNewBulletsToBody prBody FEATURES_SECTION featureBulletsWithAttribution
                BUGS_SECTION bugBulletsWithAttribution;
            prBody2 =
              replace_match match_last_updated_at (''*Last updated: '' @ w_now w @ ''*'') prBody1
        in write_io (PullUpdateBody prNumber prBody2) (outcome (w_pulls_update w))))"

definition addSummaryComment :: "'j world \<Rightarrow> pull_request \<Rightarrow> nat \<Rightarrow> string \<Rightarrow> unit io" where
  "addSummaryComment w sourcePR prNumber aiSummary =
     (let commentTitle =
            ''### Merged: '' @ [CHR 0x22] @ pr_title sourcePR @ [CHR 0x22] @ '' (#''
              @ string_of_nat (pr_number sourcePR) @ '') by @''
              @ or_default (pr_user_login sourcePR) ''Unknown'';
          commentBody =
            commentTitle @ ''\<newline>\<newline>'' @ aiSummary
              @ ''\<newline>\<newline>---\<newline>_This summary was generated automatically by AI_''
      in write_io (CommentCreate prNumber (Text commentBody)) (outcome (w_createComment w)))"

definition updateStagingToReleasePR ::
  "service \<Rightarrow> 'j world \<Rightarrow> pull_request \<Rightarrow> string \<Rightarrow> unit io" where
  \<comment> \<open>a pull request number of 0 is falsy, like \<open>undefined\<close>\<close>
  "updateStagingToReleasePR svc w sourcePR aiSummary =
     (let draftPR = findStagingToReleasePR svc w;
          prToUpdate = map_option pr_number draftPR
      in bind_io
           (if prToUpdate = None \<or> prToUpdate = Some 0 then
              write_io
                (PullCreate (''Updating '' @ releasePrefix svc @ getCurrentVersion svc w)
                   (stagingBranch svc) (releaseBranch svc))
                (w_pulls_create w)
            else return_io (nullish prToUpdate 0))
           (\<lambda>n.
              bind_io (updatePRWithAISummary svc w sourcePR n aiSummary) (\<lambda>_.
              bind_io (addSummaryComment w sourcePR n aiSummary) (\<lambda>_.
                updatePRTitle svc w n aiSummary))))"

definition handleFeatureMergedToStaging :: "service \<Rightarrow> 'j world \<Rightarrow> pull_request \<Rightarrow> unit io" where
  "handleFeatureMergedToStaging svc w pr =
     bind_io (read_io (outcome (w_prDetails w))) (\<lambda>prDetails.
     bind_io (read_io (callOpenAI svc (w_chat_summary w))) (\<lambda>aiSummary.
       if aiSummary = None \<or> aiSummary = Some [] then return_io ()
       else updateStagingToReleasePR svc w pr (nullish aiSummary [])))"

definition match_digits :: "string \<Rightarrow> (string \<times> string) option" where
  \<comment> \<open>\<open>\d+\<close> anchored: the digits and the rest. What follows it in the expression is not
      a digit, so the greedy run is the only way to match\<close>
  "match_digits s =
     (let ds = takeWhile is_digit s in if ds = [] then None else Some (ds, drop (length ds) s))"

definition match_version_number :: "string \<Rightarrow> (string \<times> string) option" where
  \<comment> \<open>\<open>v?\d+\.\d+\.\d+\<close> under the \<open>i\<close> flag, anchored: the matched text and the rest\<close>
  "match_version_number s =
     (let v = (if ci_prefix ''v'' s then take 1 s else []) in
      case match_digits (drop (length v) s) of
        None \<Rightarrow> None
      | Some (d1, s2) \<Rightarrow>
          if \<not> prefix ''.'' s2 then None
          else
            (case match_digits (drop 1 s2) of
               None \<Rightarrow> None
             | Some (d2, s3) \<Rightarrow>
                 if \<not> prefix ''.'' s3 then None
                 else
                   (case match_digits (drop 1 s3) of
                      None \<Rightarrow> None
                    | Some (d3, s4) \<Rightarrow> Some (v @ d1 @ ''.'' @ d2 @ ''.'' @ d3, s4))))"

definition parseReleaseTitle :: "string \<Rightarrow> (string \<times> string) option" where
  \<comment> \<open>\<open>pr.title.match(/^(MAJOR|MINOR|PATCH) Release: (v?\d+\.\d+\.\d+):/i)\<close>: the two
      groups\<close>
  "parseReleaseTitle title =
     (case match_bump title of
        None \<Rightarrow> None
      | Some versionType \<Rightarrow>
          (let s1 = drop (length versionType) title in
           if \<not> ci_prefix '' Release: '' s1 then None
           else
             (case match_version_number (drop 10 s1) of
                None \<Rightarrow> None
              | Some (versionFromTitle, s2) \<Rightarrow>
                  if prefix '':'' s2 then Some (versionType, versionFromTitle) else None)))"

definition handleStagingMergedToRelease :: "service \<Rightarrow> 'j world \<Rightarrow> pull_request \<Rightarrow> unit io" where
  "handleStagingMergedToRelease svc w pr =
     (if \<not> pr_merged pr then return_io ()
      else if pr_head_ref pr \<noteq> stagingBranch svc \<or> pr_base_ref pr \<noteq> releaseBranch svc
      then return_io ()
      else
        (case parseReleaseTitle (pr_title pr) of
           None \<Rightarrow> return_io ()
         | Some (versionType, versionFromTitle) \<Rightarrow>
             (let versionPrefix = releasePrefix svc;
                  versionWithoutPrefix = strip_prefix ''v'' versionFromTitle;
                  version = versionPrefix @ versionWithoutPrefix;
                  body = w_formatReleaseNotes w (or_default (pr_body pr) []) versionType
              in bind_io
                   (write_io (ReleaseCreate version version body (releaseBranch svc))
                      (w_createRelease w))
                   (\<lambda>html_url.
                      write_io
                        (CommentCreate (pr_number pr) (ReleasePublished version html_url))
                        (outcome (w_createComment w))))))"

section \<open>The event handler (events.ts)\<close>

definition probotHandler :: "'j world \<Rightarrow> pull_request \<Rightarrow> service option \<times> unit io" where
  \<comment> \<open>the service the handler ends with, if it built one, and its outcome. The value that
      \<open>loadConfig\<close> returns is dropped\<close>
  "probotHandler w pr =
     (if \<not> pr_merged pr then (None, return_io ())
      else
        (case new_PRService w of
           Inl e \<Rightarrow> (None, ([], Inl e))
         | Inr prService0 \<Rightarrow>
             (case loadConfig prService0 w of
                (prService, loaded) \<Rightarrow>
                  (Some prService,
                   bind_io (read_io loaded) (\<lambda>_.
                   bind_io
                     (if Some (pr_base_ref pr) = Option.bind (cfg_branches (config prService)) br_staging
                         \<and> Some (pr_head_ref pr) \<noteq> Option.bind (cfg_branches (config prService)) br_release
                      then handleFeatureMergedToStaging prService w pr
                      else return_io ())
                     (\<lambda>_.
                        if Some (pr_base_ref pr) = Option.bind (cfg_branches (config prService)) br_release
                           \<and> Some (pr_head_ref pr) = Option.bind (cfg_branches (config prService)) br_staging
                        then handleStagingMergedToRelease prService w pr
                        else return_io ()))))))"

definition probotHandler_handlers :: "'j world \<Rightarrow> pull_request \<Rightarrow> service option \<times> unit io" where
  \<comment> \<open>the handler of handlers/events.ts: the branch names are written out, and the
      release stage is commented out\<close>
  "probotHandler_handlers w pr =
     (if \<not> pr_merged pr then (None, return_io ())
      else
        (case new_PRService w of
           Inl e \<Rightarrow> (None, ([], Inl e))
         | Inr prService0 \<Rightarrow>
             (case loadConfig prService0 w of
                (prService, loaded) \<Rightarrow>
                  (Some prService,
                   bind_io (read_io loaded) (\<lambda>_.
                     if pr_base_ref pr = ''staging'' \<and> pr_head_ref pr \<noteq> ''main''
                     then handleFeatureMergedToStaging prService w pr
                     else return_io ())))))"

section \<open>The titles, as the specification speaks of them\<close>

definition all_digits :: "string \<Rightarrow> bool" where
  "all_digits d = (d \<noteq> [] \<and> list_all is_digit d)"

definition release_title_pattern :: "string \<Rightarrow> bool" where
  \<comment> \<open>the pattern \<open><BUMP> Release: <version-with-optional-v-prefix>:\<close> of the release
      stage, followed by anything: the bump class is one of \<open>MAJOR\<close>, \<open>MINOR\<close>, \<open>PATCH\<close>,
      the version is three runs of digits separated by dots\<close>
  "release_title_pattern title =
     (\<exists>bump v d1 d2 d3 rest.
        title = bump @ '' Release: '' @ v @ d1 @ ''.'' @ d2 @ ''.'' @ d3 @ '':'' @ rest
        \<and> bump \<in> set [''MAJOR'', ''MINOR'', ''PATCH'']
        \<and> (v = [] \<or> v = ''v'')
        \<and> all_digits d1 \<and> all_digits d2 \<and> all_digits d3)"

definition release_title_pattern_any_case :: "string \<Rightarrow> bool" where
  \<comment> \<open>the same pattern read without regard to the case of its letters\<close>
  "release_title_pattern_any_case title =
     (\<exists>bump sep v d1 d2 d3 rest.
        title = bump @ sep @ v @ d1 @ ''.'' @ d2 @ ''.'' @ d3 @ '':'' @ rest
        \<and> toUpperCase bump \<in> set [''MAJOR'', ''MINOR'', ''PATCH'']
        \<and> toUpperCase sep = '' RELEASE: ''
        \<and> (v = [] \<or> toUpperCase v = ''V'')
        \<and> all_digits d1 \<and> all_digits d2 \<and> all_digits d3)"




section \<open>A sample event\<close>

text \<open>Concrete values on which the properties below are run.\<close>

definition sample_pr :: pull_request where
  "sample_pr = \<lparr>
     pr_number = 12, pr_title = ''Add login'', pr_body = Some ''Adds a login page'',
     pr_draft = Some False, pr_merged = True, pr_head_ref = ''feature/login'',
     pr_base_ref = ''staging'', pr_user_login = Some ''dev'',
     pr_html_url = ''https://example.org/pull/12'' \<rparr>"

definition sample_draft :: pull_request where
  "sample_draft = \<lparr>
     pr_number = 7, pr_title = ''PATCH Release: v1.4.3: Fixes'',
     pr_body = Some ''## New Features\<newline>\<newline>## Bugs / Improvements\<newline>'',
     pr_draft = Some True, pr_merged = False, pr_head_ref = ''staging'',
     pr_base_ref = ''main'', pr_user_login = Some ''bot'',
     pr_html_url = ''https://example.org/pull/7'' \<rparr>"

definition sample_world :: "string world" where
  "sample_world = \<lparr>
     w_has_api_key = True, w_has_repository = True, w_owner = ''acme'',
     w_getContent = Inl (RequestError 404),
     w_decode_base64 = (\<lambda>s. s),
     w_json_parse = (\<lambda>s. if prefix ''{'' s then Some s else None),
     w_mergeConfigs = (\<lambda>d j. Inr (d \<lparr> cfg_release := Some \<lparr> rel_prefix = Some ''rel-'',
        rel_createDraft = Some False, rel_prerelease = Some False,
        rel_generateReleaseNotes = Some True \<rparr> \<rparr>)),
     w_prDetails = None,
     w_chat_summary = Inr [Some ''New Features\<newline>- Add login\<newline>\<newline>Bugs / Improvements\<newline>''],
     w_chat_version = Inr [Some ''VERSION_TYPE: minor\<newline>SUMMARY: Add login''],
     w_list_pulls = (\<lambda>h b. Inr [sample_draft]),
     w_latestRelease = Inr ''v1.4.2'',
     w_listTags = Inr [],
     w_pulls_create = Inr 8,
     w_pulls_get = (\<lambda>n. Inr sample_draft),
     w_pulls_update = None,
     w_createComment = None,
     w_createRelease = Inr ''https://example.org/releases/1'',
     w_parseSummary = (\<lambda>s. ([''Add login''], [])),
     w_now = ''2025-01-01T00:00:00.000Z'',
     w_formatReleaseNotes = (\<lambda>body versionType. body) \<rparr>"


definition release_pr :: pull_request where
  \<comment> \<open>the merged pull request from staging to the release branch\<close>
  "release_pr = sample_draft\<lparr>pr_merged := True, pr_title := ''MINOR Release: v1.2.0: Add login''\<rparr>"

section \<open>Properties of the version policy\<close>

lemma round_to_double_exact: "a < 2 ^ 53 \<Longrightarrow> round_to_double a = Some a"
  by (simp add: round_to_double_def)

lemma round_to_double_bound: "round_to_double (2 ^ 53) = Some (2 ^ 53)"
  by code_simp

lemma nat_to_string_bound: "nat_to_string (2 ^ 53) = decimal (2 ^ 53)"
  by code_simp

text \<open>
  Below \<open>2 ^ 53\<close> the fewest digits that read back as a number are its own digits up to
  its final zeros, which is why \<open>nat_to_string\<close> prints all its digits there.
\<close>

lemma shortest_decimal_agrees:
  "shortest_decimal 7 = Some (1, 1, 7)"
  "shortest_decimal 1200 = Some (2, 4, 12)"
  "shortest_decimal 9007199254740991 = Some (16, 16, 9007199254740991)"
  by code_simp+

lemma to_number_exact: "0 \<le> i \<Longrightarrow> i \<le> 2 ^ 53 \<Longrightarrow> to_number i = Num i"
proof -
  assume a: "0 \<le> i" "i \<le> 2 ^ 53"
  then have "round_to_double \<bar>i\<bar> = Some i"
    using round_to_double_exact [of i] round_to_double_bound by (cases "i = 2 ^ 53") simp_all
  with a show ?thesis by (simp add: to_number_def)
qed

lemma num_succ_exact: "0 \<le> i \<Longrightarrow> i < 2 ^ 53 \<Longrightarrow> num_succ (Num i) = Num (i + 1)"
  by (simp add: num_succ_def to_number_exact)

lemma num_to_string_exact: "0 \<le> i \<Longrightarrow> i \<le> 2 ^ 53 \<Longrightarrow> num_to_string (Num i) = decimal i"
  using nat_to_string_bound
  by (cases "i = 2 ^ 53") (simp_all add: num_to_string_def nat_to_string_def)

lemma calculateNewVersion_exact:
  assumes "versionComponent v 0 = Num major" and "0 \<le> major" and "major < 2 ^ 53"
    and "versionComponent v 1 = Num minor" and "0 \<le> minor" and "minor < 2 ^ 53"
    and "versionComponent v 2 = Num patch" and "0 \<le> patch" and "patch < 2 ^ 53"
  shows "calculateNewVersion v ''major'' = decimal (major + 1) @ ''.0.0''"
    and "calculateNewVersion v ''minor'' = decimal major @ ''.'' @ decimal (minor + 1) @ ''.0''"
    and "calculateNewVersion v ''patch'' =
        decimal major @ ''.'' @ decimal minor @ ''.'' @ decimal (patch + 1)"
  using assms
  by (simp_all add: calculateNewVersion_def num_succ_exact num_to_string_exact)

text \<open>
  A version printed in the canonical form \<open>a.b.c\<close>, with components below \<open>2 ^ 53\<close>, is
  read back component by component: the hypotheses of the theorem of claim C1 hold of
  every such string.
\<close>

lemma of_char_digit_char: "d < 10 \<Longrightarrow> (of_char (digit_char d) :: nat) = 48 + d"
  by (simp add: digit_char_def)

lemma digit_char_neq:
  assumes "d < 10" and "(of_char c :: nat) < 48 \<or> 57 < (of_char c :: nat)"
  shows "digit_char d \<noteq> c"
proof
  assume "digit_char d = c"
  with of_char_digit_char [OF assms(1)] have "(of_char c :: nat) = 48 + d" by simp
  with assms show False by simp
qed

lemma digit_char_props:
  assumes "d < 10"
  shows "is_digit (digit_char d) \<and> digit_val (digit_char d) = int d
     \<and> \<not> is_ws (digit_char d) \<and> digit_char d \<noteq> CHR ''-'' \<and> digit_char d \<noteq> CHR ''+''
     \<and> digit_char d \<noteq> CHR ''.''"
proof -
  note n = digit_char_neq [OF assms]
  have "(of_char (digit_char d) :: int) = int (of_char (digit_char d))"
    by (simp only: of_nat_of_char)
  with of_char_digit_char [OF assms] have i: "(of_char (digit_char d) :: int) = 48 + int d"
    by simp
  have "is_digit (digit_char d)" "digit_val (digit_char d) = int d"
    using assms i by (simp_all add: is_digit_def digit_val_def of_char_digit_char)
  moreover have "\<not> is_ws (digit_char d)"
    unfolding is_ws_def by (simp add: n)
  moreover have "digit_char d \<noteq> CHR ''-''" "digit_char d \<noteq> CHR ''+''" "digit_char d \<noteq> CHR ''.''"
    by (simp_all add: n)
  ultimately show ?thesis by blast
qed

lemma decimal_digits:
  "decimal n \<noteq> [] \<and> (\<forall>c \<in> set (decimal n). is_digit c \<and> c \<noteq> CHR ''.'')
     \<and> \<not> is_ws (hd (decimal n)) \<and> hd (decimal n) \<noteq> CHR ''-''
     \<and> hd (decimal n) \<noteq> CHR ''+''"
proof (induction n rule: decimal.induct)
  case (1 n)
  show ?case
  proof (cases "n < 10")
    case True
    then have "nat n < 10" by simp
    from digit_char_props [OF this] True show ?thesis by (simp add: decimal.simps [of n])
  next
    case False
    have m: "nat (n mod 10) < 10" by simp
    from False "1.IH" digit_char_props [OF m] show ?thesis
      by (simp add: decimal.simps [of n])
  qed
qed

lemma digits_value_snoc: "digits_value (xs @ [c]) = 10 * digits_value xs + digit_val c"
  by (simp add: digits_value_def)

lemma digits_value_decimal: "0 \<le> n \<Longrightarrow> digits_value (decimal n) = n"
proof (induction n rule: decimal.induct)
  case (1 n)
  show ?case
  proof (cases "n < 10")
    case True
    then have "nat n < 10" by simp
    from digit_char_props [OF this] True "1.prems" show ?thesis
      by (simp add: decimal.simps [of n] digits_value_def)
  next
    case False
    have m: "nat (n mod 10) < 10" by simp
    from False "1.prems" have "digits_value (decimal (n div 10)) = n div 10"
      by (intro "1.IH") simp_all
    with False digit_char_props [OF m] show ?thesis
      by (simp add: decimal.simps [of n] digits_value_snoc)
  qed
qed

lemma parseInt_decimal: "0 \<le> n \<Longrightarrow> n < 2 ^ 53 \<Longrightarrow> parseInt (decimal n) = Num n"
proof -
  assume n: "0 \<le> n" "n < 2 ^ 53"
  let ?s = "decimal n"
  note p = decimal_digits [of n]
  from p obtain c cs where s: "?s = c # cs" by (cases ?s) auto
  from p s have c: "\<not> is_ws c" "c \<noteq> CHR ''-''" "c \<noteq> CHR ''+''" by simp_all
  from c(1) s have dw: "dropWhile is_ws ?s = ?s" by simp
  from p have tw: "takeWhile is_digit ?s = ?s" by (simp add: takeWhile_eq_all_conv)
  from p have ne: "?s \<noteq> []" by simp
  have hd: "hd ?s = c" using s by simp
  have u: "(if ?s \<noteq> [] \<and> (hd ?s = CHR ''-'' \<or> hd ?s = CHR ''+'') then tl ?s else ?s) = ?s"
    using c hd by simp
  have neg: "(?s \<noteq> [] \<and> hd ?s = CHR ''-'') = False" using c hd by simp
  show ?thesis
    unfolding parseInt_def Let_def dw u tw neg
    using ne n by (simp add: digits_value_decimal to_number_exact)
qed

lemma split_char_no_sep: "d \<notin> set x \<Longrightarrow> split_char d x = [x]"
  by (induction x) auto

lemma split_char_first: "d \<notin> set x \<Longrightarrow> split_char d (x @ d # y) = x # split_char d y"
  by (induction x) auto

lemma versionComponent_canonical:
  assumes "0 \<le> a" "a < 2 ^ 53" "0 \<le> b" "b < 2 ^ 53" "0 \<le> c" "c < 2 ^ 53"
  shows "versionComponent (decimal a @ ''.'' @ decimal b @ ''.'' @ decimal c) 0 = Num a
   \<and> versionComponent (decimal a @ ''.'' @ decimal b @ ''.'' @ decimal c) 1 = Num b
   \<and> versionComponent (decimal a @ ''.'' @ decimal b @ ''.'' @ decimal c) 2 = Num c"
proof -
  let ?a = "decimal a" and ?b = "decimal b" and ?c = "decimal c"
  have nd: "CHR ''.'' \<notin> set ?a" "CHR ''.'' \<notin> set ?b" "CHR ''.'' \<notin> set ?c"
    using decimal_digits by blast+
  have ne: "?a \<noteq> []" "?b \<noteq> []" "?c \<noteq> []" using decimal_digits by blast+
  have "split_char CHR ''.'' (?a @ CHR ''.'' # ?b @ CHR ''.'' # ?c) = [?a, ?b, ?c]"
    by (simp add: split_char_first [OF nd(1)] split_char_first [OF nd(2)] split_char_no_sep [OF nd(3)])
  then have sp: "split_char CHR ''.'' (?a @ ''.'' @ ?b @ ''.'' @ ?c) = [?a, ?b, ?c]" by simp
  show ?thesis
    unfolding versionComponent_def sp
    using ne assms by (simp add: nth_opt_def or_default_def parseInt_decimal)
qed

text \<open>
  Claim C1, as the specification states it, fails: a number is a double, and from \<open>2 ^ 53\<close>
  on adding 1 to a double does not always give the next integer. The component
  \<open>9007199254740992\<close> parses to that integer and comes back unchanged from a major bump;
  a component of 22 digits is printed with an exponent.
\<close>

theorem calculateNewVersion_not_semver_beyond_doubles:
  "versionComponent ''9007199254740992.0.0'' 0 = Num 9007199254740992
   \<and> versionComponent ''9007199254740992.0.0'' 1 = Num 0
   \<and> versionComponent ''9007199254740992.0.0'' 2 = Num 0
   \<and> calculateNewVersion ''9007199254740992.0.0'' ''major'' = ''9007199254740992.0.0''
   \<and> decimal (9007199254740992 + 1) @ ''.0.0'' = ''9007199254740993.0.0''
   \<and> calculateNewVersion ''9007199254740992.0.0'' ''major''
       \<noteq> decimal (9007199254740992 + 1) @ ''.0.0''
   \<and> versionComponent ''1000000000000000000000.0.0'' 0 = Num 1000000000000000000000
   \<and> calculateNewVersion ''1000000000000000000000.0.0'' ''minor'' = ''1e+21.1.0''"
proof -
  have a: "versionComponent ''9007199254740992.0.0'' 0 = Num 9007199254740992" by code_simp
  have b: "versionComponent ''9007199254740992.0.0'' 1 = Num 0" by code_simp
  have c: "versionComponent ''9007199254740992.0.0'' 2 = Num 0" by code_simp
  have d: "calculateNewVersion ''9007199254740992.0.0'' ''major'' = ''9007199254740992.0.0''"
    by code_simp
  have e: "decimal (9007199254740992 + 1) @ ''.0.0'' = ''9007199254740993.0.0''" by code_simp
  have f: "versionComponent ''1000000000000000000000.0.0'' 0 = Num 1000000000000000000000"
    by code_simp
  have g: "calculateNewVersion ''1000000000000000000000.0.0'' ''minor'' = ''1e+21.1.0''"
    by code_simp
  have h: "calculateNewVersion ''9007199254740992.0.0'' ''major''
       \<noteq> decimal (9007199254740992 + 1) @ ''.0.0''"
    unfolding d e by simp
  from a b c d e f g h show ?thesis by simp
qed

text \<open>
  Claim C1, amended. For every version string whose first three dot-separated components
  parse to non-negative integers \<open>major\<close>, \<open>minor\<close>, \<open>patch\<close> below \<open>2 ^ 53\<close> (the range in
  which every integer is a double), \<open>calculateNewVersion\<close> returns the semver-reset result:
  \<open>major\<close> gives \<open>(major+1).0.0\<close>, \<open>minor\<close> gives \<open>major.(minor+1).0\<close> and \<open>patch\<close> gives
  \<open>major.minor.(patch+1)\<close>, each number printed in decimal.
\<close>

theorem calculateNewVersion_semver_reset:
  assumes "versionComponent v 0 = Num major" and "0 \<le> major" and "major < 2 ^ 53"
    and "versionComponent v 1 = Num minor" and "0 \<le> minor" and "minor < 2 ^ 53"
    and "versionComponent v 2 = Num patch" and "0 \<le> patch" and "patch < 2 ^ 53"
  shows "calculateNewVersion v ''major'' = decimal (major + 1) @ ''.0.0''
    \<and> calculateNewVersion v ''minor'' = decimal major @ ''.'' @ decimal (minor + 1) @ ''.0''
    \<and> calculateNewVersion v ''patch'' =
        decimal major @ ''.'' @ decimal minor @ ''.'' @ decimal (patch + 1)"
  using calculateNewVersion_exact [OF assms] by simp

theorem calculateNewVersion_semver_reset_witness:
  "versionComponent ''1.4.2'' 0 = Num 1 \<and> (0::int) \<le> 1 \<and> (1::int) < 2 ^ 53
   \<and> versionComponent ''1.4.2'' 1 = Num 4 \<and> (0::int) \<le> 4 \<and> (4::int) < 2 ^ 53
   \<and> versionComponent ''1.4.2'' 2 = Num 2 \<and> (0::int) \<le> 2 \<and> (2::int) < 2 ^ 53
   \<and> calculateNewVersion ''1.4.2'' ''major'' = ''2.0.0''
   \<and> calculateNewVersion ''1.4.2'' ''minor'' = ''1.5.0''
   \<and> calculateNewVersion ''1.4.2'' ''patch'' = ''1.4.3''"
proof -
  have c0: "versionComponent ''1.4.2'' 0 = Num 1" by code_simp
  have c1: "versionComponent ''1.4.2'' 1 = Num 4" by code_simp
  have c2: "versionComponent ''1.4.2'' 2 = Num 2" by code_simp
  have b: "(0::int) \<le> 1" "(1::int) < 2 ^ 53" "(0::int) \<le> 4" "(4::int) < 2 ^ 53"
    "(0::int) \<le> 2" "(2::int) < 2 ^ 53" by simp_all
  have s: "decimal (1 + 1) = ''2''" "decimal 1 = ''1''"
    "decimal (4 + 1) = ''5''" "decimal 4 = ''4''" "decimal (2 + 1) = ''3''"
    by code_simp+
  have r: "calculateNewVersion ''1.4.2'' ''major'' = ''2'' @ ''.0.0''
    \<and> calculateNewVersion ''1.4.2'' ''minor'' = ''1'' @ ''.'' @ ''5'' @ ''.0''
    \<and> calculateNewVersion ''1.4.2'' ''patch'' = ''1'' @ ''.'' @ ''4'' @ ''.'' @ ''3''"
    using calculateNewVersion_semver_reset [OF c0 b(1,2) c1 b(3,4) c2 b(5,6)] unfolding s .
  from r c0 c1 c2 b show ?thesis by simp
qed

section \<open>Properties of the document merge\<close>

lemma indexOf_SomeD:
  "indexOf pat s = Some i \<Longrightarrow> i + length pat \<le> length s \<and> prefix pat (drop i s)"
proof (induction s arbitrary: i)
  case Nil
  then show ?case by (auto split: if_splits)
next
  case (Cons c cs)
  then show ?case by (auto split: if_splits dest: prefix_length_le)
qed

lemma indexOf_extend:
  "indexOf p s = Some i \<Longrightarrow> prefix (p @ x) (drop i s) \<Longrightarrow> indexOf (p @ x) s = Some i"
proof (induction s arbitrary: i)
  case Nil
  then show ?case by (auto split: if_splits)
next
  case (Cons c cs)
  show ?case
  proof (cases "prefix p (c # cs)")
    case True
    with Cons.prems show ?thesis by simp
  next
    case False
    then have np: "\<not> prefix (p @ x) (c # cs)"
      using append_prefixD by blast
    from False Cons.prems(1) obtain i' where i': "indexOf p cs = Some i'" "i = Suc i'"
      by auto
    with Cons.prems(2) have "prefix (p @ x) (drop i' cs)" by simp
    from Cons.IH [OF i'(1) this] np i'(2) show ?thesis by simp
  qed
qed

lemma indexOf_empty_pat: "indexOf [] s = Some 0"
  by (cases s) simp_all

lemma indexOf_append_mono: "indexOf pat s = Some i \<Longrightarrow> indexOf pat (s @ t) = Some i"
proof (induction s arbitrary: i)
  case Nil
  then show ?case by (auto split: if_splits simp: indexOf_empty_pat)
next
  case (Cons c cs)
  show ?case
  proof (cases "prefix pat (c # cs)")
    case True
    then have "prefix pat ((c # cs) @ t)" by (rule prefix_prefix)
    with True Cons.prems show ?thesis by simp
  next
    case False
    from False Cons.prems obtain i' where i': "indexOf pat cs = Some i'" "i = Suc i'"
      by auto
    from indexOf_SomeD [OF i'(1)] have len: "length pat \<le> length (c # cs)" by simp
    have "\<not> prefix pat ((c # cs) @ t)"
    proof
      assume "prefix pat ((c # cs) @ t)"
      then have "prefix pat (c # cs) \<or> (\<exists>us. pat = (c # cs) @ us \<and> prefix us t)"
        by (simp only: prefix_append)
      with False obtain us where "pat = (c # cs) @ us" by blast
      with len have "pat = c # cs" by simp
      with False show False by simp
    qed
    with Cons.IH [OF i'(1)] i'(2) show ?thesis by simp
  qed
qed

lemma str_includes_append: "str_includes pat s \<Longrightarrow> str_includes pat (s @ t)"
  unfolding str_includes_def using indexOf_append_mono by fastforce

lemma replace_first_at:
  "indexOf pat s = Some i \<Longrightarrow>
   replace_first pat repl s =
     take i s @ substitute pat (take i s) (drop (i + length pat) s) repl @ drop (i + length pat) s"
  by (simp add: replace_first_def)

lemma lazy_until_prefix: "prefix (lazy_until stop s) s"
  by (simp add: lazy_until_def take_is_prefix)

lemma match_from_to_occurrence:
  assumes "match_from_to start stop s = Some (i, g)"
  shows "indexOf start s = Some i \<and> indexOf g s = Some i
    \<and> g = start @ lazy_until stop (drop (i + length start) s)"
proof -
  from assms have i: "indexOf start s = Some i"
    and g: "g = start @ lazy_until stop (drop (i + length start) s)"
    by (auto simp: match_from_to_def split: option.splits)
  from indexOf_SomeD [OF i] obtain zs where zs: "drop i s = start @ zs"
    by (auto simp: prefix_def)
  have "drop (i + length start) s = drop (length start) (drop i s)"
    by (simp add: add.commute)
  with zs have "drop (i + length start) s = zs" by simp
  with g zs lazy_until_prefix [of stop zs] have "prefix (start @ lazy_until stop zs) (drop i s)"
    by simp
  from indexOf_extend [OF i this] g \<open>drop (i + length start) s = zs\<close> i show ?thesis by simp
qed

lemma length_lazy_until:
  "length (lazy_until stop r) = (case indexOf stop r of None \<Rightarrow> length r | Some j \<Rightarrow> j)"
proof (cases "indexOf stop r")
  case None
  then show ?thesis by (simp add: lazy_until_def)
next
  case (Some j)
  with indexOf_SomeD [OF Some] show ?thesis by (simp add: lazy_until_def)
qed

lemma match_from_to_span:
  assumes a: "indexOf hdr body = Some a"
  shows "\<exists>g. match_from_to hdr stop body = Some (a, g) \<and> indexOf g body = Some a
    \<and> a + length g =
        (case indexOf_from stop (a + length hdr) body of None \<Rightarrow> length body | Some e \<Rightarrow> e)"
proof -
  let ?rest = "drop (a + length hdr) body"
  let ?g = "hdr @ lazy_until stop ?rest"
  from a have m: "match_from_to hdr stop body = Some (a, ?g)"
    by (simp add: match_from_to_def)
  from match_from_to_occurrence [OF m] have occ: "indexOf ?g body = Some a" by blast
  from indexOf_SomeD [OF a] have le: "a + length hdr \<le> length body" by blast
  have "a + length ?g =
      (case indexOf_from stop (a + length hdr) body of None \<Rightarrow> length body | Some e \<Rightarrow> e)"
  proof (cases "indexOf stop ?rest")
    case None
    with le show ?thesis by (simp add: length_lazy_until indexOf_from_def)
  next
    case (Some j)
    then show ?thesis by (simp add: length_lazy_until indexOf_from_def)
  qed
  with m occ show ?thesis by blast
qed

lemma str_includes_middle: "str_includes pat (x @ pat @ y)"
proof (induction x)
  case Nil
  have "prefix pat (pat @ y)" by simp
  then show ?case by (cases "pat @ y") (simp_all add: str_includes_def)
next
  case (Cons c cs)
  then show ?case by (auto simp: str_includes_def)
qed

lemma ensure_section_includes: "str_includes (''## '' @ H) (ensure_section body H p)"
proof (cases "str_includes (''## '' @ H) body")
  case True
  then show ?thesis by (simp add: ensure_section_def)
next
  case False
  have "str_includes (''## '' @ H) ((body @ ''\<newline>\<newline>'') @ (''## '' @ H) @ (''\<newline><!-- '' @ p @ '' -->\<newline>''))"
    by (rule str_includes_middle)
  with False show ?thesis by (simp add: ensure_section_def)
qed

lemma ensure_section_prefix: "prefix body (ensure_section body H p)"
  by (simp add: ensure_section_def)

lemma ensure_section_keeps: "str_includes pat body \<Longrightarrow> str_includes pat (ensure_section body H p)"
  using str_includes_append [of pat body] by (simp add: ensure_section_def)

lemma create_missing_sections_prefix: "prefix body (create_missing_sections body F B)"
  unfolding create_missing_sections_def
  by (meson ensure_section_prefix prefix_order.trans)

lemma create_missing_sections_includes:
  "str_includes (''## '' @ F) (create_missing_sections body F B)"
  "str_includes (''## '' @ B) (create_missing_sections body F B)"
  unfolding create_missing_sections_def
  by (rule ensure_section_keeps, rule ensure_section_includes, rule ensure_section_includes)

lemma add_bullets_none: "add_bullets body H [] = body"
  by (simp add: add_bullets_def)

lemma ensure_section_present:
  "str_includes (''## '' @ H) body \<Longrightarrow> ensure_section body H p = body"
  by (simp add: ensure_section_def)

lemma ensure_section_absent:
  "\<not> str_includes (''## '' @ H) body \<Longrightarrow> strict_prefix body (ensure_section body H p)"
  by (simp add: ensure_section_def strict_prefix_def)

lemma prefix_no_sep: "c \<notin> set pat \<Longrightarrow> prefix pat (x @ c # y) \<longleftrightarrow> prefix pat x"
proof
  assume c: "c \<notin> set pat" and p: "prefix pat (x @ c # y)"
  from p have "prefix pat x \<or> (\<exists>us. pat = x @ us \<and> prefix us (c # y))"
    by (simp only: prefix_append)
  then show "prefix pat x"
  proof
    assume "\<exists>us. pat = x @ us \<and> prefix us (c # y)"
    then obtain us where us: "pat = x @ us" "prefix us (c # y)" by blast
    show ?thesis
    proof (cases us)
      case Nil
      with us(1) show ?thesis by simp
    next
      case (Cons u us')
      with us(2) have "u = c" by simp
      with Cons us(1) c show ?thesis by simp
    qed
  qed
next
  assume "prefix pat x"
  then show "prefix pat (x @ c # y)" by (rule prefix_prefix)
qed

lemma str_includes_no_sep:
  assumes "c \<notin> set pat"
  shows "str_includes pat (x @ c # y) \<longleftrightarrow> str_includes pat x \<or> str_includes pat y"
proof (induction x)
  case Nil
  show ?case
  proof (cases pat)
    case Nil
    then show ?thesis by (simp add: str_includes_def indexOf_empty_pat)
  next
    case (Cons p ps)
    with assms have "p \<noteq> c" by auto
    with Cons show ?thesis by (simp add: str_includes_def)
  qed
next
  case (Cons a x)
  from prefix_no_sep [OF assms, of "a # x" y]
  have p: "prefix pat (a # x @ c # y) \<longleftrightarrow> prefix pat (a # x)" by simp
  from Cons.IH show ?case by (simp add: str_includes_def p)
qed

lemma service_headers_plain: "regex_plain FEATURES_SECTION \<and> regex_plain BUGS_SECTION"
  by code_simp

text \<open>
  Claim C2, as the specification states it, fails: merging no bullets is not the identity on
  a document that lacks a section header, because the function first appends every missing
  section with its placeholder comment.
\<close>

theorem addNewBulletsToBody_no_bullets_not_identity:
  "addNewBulletsToBody ''Intro'' FEATURES_SECTION [] BUGS_SECTION [] =
     ''Intro\<newline>\<newline>## New Features\<newline><!-- New feature summaries will be added here -->\<newline>''
     @ ''\<newline>\<newline>## Bugs / Improvements\<newline><!-- Bug fixes and improvements will be added here -->\<newline>''
   \<and> addNewBulletsToBody ''Intro'' FEATURES_SECTION [] BUGS_SECTION [] \<noteq> ''Intro''"
  by code_simp

text \<open>
  Claim C2, amended. Merging empty sequences of new bullets returns the document unchanged
  exactly when the document already contains both section headers. When the header of the
  first section is present and the header of the second is not, the result is the document
  followed by the second section: two line feeds, the header line, and the placeholder
  comment of that section on a line of its own. When the header of the first section is
  missing, that section is appended in the same way, and the second section is appended
  after it unless its header occurs in the document so extended. For the two headers of
  the service the header of the second section occurs in the extended document only if it
  occurs in the document.
\<close>

theorem addNewBulletsToBody_no_bullets:
  "(str_includes (''## '' @ F) body \<and> str_includes (''## '' @ B) body
      \<longrightarrow> addNewBulletsToBody body F [] B [] = body)
   \<and> (str_includes (''## '' @ F) body \<and> \<not> str_includes (''## '' @ B) body
      \<longrightarrow> addNewBulletsToBody body F [] B [] =
            body @ ''\<newline>\<newline>## '' @ B @ ''\<newline><!-- Bug fixes and improvements will be added here -->\<newline>'')
   \<and> (\<not> str_includes (''## '' @ F) body
        \<and> str_includes (''## '' @ B)
            (body @ ''\<newline>\<newline>## '' @ F @ ''\<newline><!-- New feature summaries will be added here -->\<newline>'')
      \<longrightarrow> addNewBulletsToBody body F [] B [] =
            body @ ''\<newline>\<newline>## '' @ F @ ''\<newline><!-- New feature summaries will be added here -->\<newline>'')
   \<and> (\<not> str_includes (''## '' @ F) body
        \<and> \<not> str_includes (''## '' @ B)
            (body @ ''\<newline>\<newline>## '' @ F @ ''\<newline><!-- New feature summaries will be added here -->\<newline>'')
      \<longrightarrow> addNewBulletsToBody body F [] B [] =
            body @ ''\<newline>\<newline>## '' @ F @ ''\<newline><!-- New feature summaries will be added here -->\<newline>''
              @ ''\<newline>\<newline>## '' @ B @ ''\<newline><!-- Bug fixes and improvements will be added here -->\<newline>'')
   \<and> (str_includes (''## '' @ BUGS_SECTION)
          (body @ ''\<newline>\<newline>## '' @ FEATURES_SECTION
             @ ''\<newline><!-- New feature summaries will be added here -->\<newline>'')
        \<longleftrightarrow> str_includes (''## '' @ BUGS_SECTION) body)
   \<and> (addNewBulletsToBody body F [] B [] = body
        \<longleftrightarrow> str_includes (''## '' @ F) body \<and> str_includes (''## '' @ B) body)"
proof -
  let ?p1 = "''New feature summaries will be added here''"
  let ?p2 = "''Bug fixes and improvements will be added here''"
  let ?b1 = "ensure_section body F ?p1"
  have r: "addNewBulletsToBody body F [] B [] = ensure_section ?b1 B ?p2"
    by (simp only: addNewBulletsToBody_def add_bullets_none create_missing_sections_def)
  have c1: "addNewBulletsToBody body F [] B [] = body"
    if "str_includes (''## '' @ F) body \<and> str_includes (''## '' @ B) body"
    using that by (simp only: r ensure_section_present)
  have c2: "addNewBulletsToBody body F [] B [] =
      body @ ''\<newline>\<newline>## '' @ B @ ''\<newline><!-- Bug fixes and improvements will be added here -->\<newline>''"
    if "str_includes (''## '' @ F) body \<and> \<not> str_includes (''## '' @ B) body"
    using that unfolding r by (simp add: ensure_section_def)
  have c3: "addNewBulletsToBody body F [] B [] =
      body @ ''\<newline>\<newline>## '' @ F @ ''\<newline><!-- New feature summaries will be added here -->\<newline>''"
    if "\<not> str_includes (''## '' @ F) body
        \<and> str_includes (''## '' @ B)
            (body @ ''\<newline>\<newline>## '' @ F @ ''\<newline><!-- New feature summaries will be added here -->\<newline>'')"
    using that unfolding r by (simp add: ensure_section_def)
  have c4: "addNewBulletsToBody body F [] B [] =
      body @ ''\<newline>\<newline>## '' @ F @ ''\<newline><!-- New feature summaries will be added here -->\<newline>''
        @ ''\<newline>\<newline>## '' @ B @ ''\<newline><!-- Bug fixes and improvements will be added here -->\<newline>''"
    if "\<not> str_includes (''## '' @ F) body
        \<and> \<not> str_includes (''## '' @ B)
            (body @ ''\<newline>\<newline>## '' @ F @ ''\<newline><!-- New feature summaries will be added here -->\<newline>'')"
    using that unfolding r by (simp add: ensure_section_def)
  have c5: "str_includes (''## '' @ BUGS_SECTION)
          (body @ ''\<newline>\<newline>## '' @ FEATURES_SECTION
             @ ''\<newline><!-- New feature summaries will be added here -->\<newline>'')
        \<longleftrightarrow> str_includes (''## '' @ BUGS_SECTION) body"
  proof -
    define pat where "pat = ''## '' @ BUGS_SECTION"
    define rest where "rest = ''\<newline>## '' @ FEATURES_SECTION
             @ ''\<newline><!-- New feature summaries will be added here -->\<newline>''"
    have n: "CHR 0x0A \<notin> set pat" unfolding pat_def by code_simp
    have t: "\<not> str_includes pat rest" unfolding pat_def rest_def by code_simp
    have "body @ ''\<newline>\<newline>## '' @ FEATURES_SECTION
             @ ''\<newline><!-- New feature summaries will be added here -->\<newline>'' = body @ CHR 0x0A # rest"
      by (simp add: rest_def)
    with str_includes_no_sep [OF n, of body rest] t show ?thesis
      unfolding pat_def [symmetric] by simp
  qed
  have c6: "addNewBulletsToBody body F [] B [] = body
        \<longleftrightarrow> str_includes (''## '' @ F) body \<and> str_includes (''## '' @ B) body"
  proof
    assume e: "addNewBulletsToBody body F [] B [] = body"
    show "str_includes (''## '' @ F) body \<and> str_includes (''## '' @ B) body"
    proof (rule ccontr)
      assume n: "\<not> (str_includes (''## '' @ F) body \<and> str_includes (''## '' @ B) body)"
      have "strict_prefix body (addNewBulletsToBody body F [] B [])"
      proof (cases "str_includes (''## '' @ F) body")
        case True
        with n have "\<not> str_includes (''## '' @ B) body" by blast
        from ensure_section_absent [OF this] True show ?thesis
          by (simp only: r ensure_section_present)
      next
        case False
        from ensure_section_absent [OF False] have "strict_prefix body ?b1" .
        moreover have "prefix ?b1 (ensure_section ?b1 B ?p2)" by (rule ensure_section_prefix)
        ultimately show ?thesis
          unfolding r by (rule prefix_order.less_le_trans)
      qed
      with e show False by simp
    qed
  next
    assume "str_includes (''## '' @ F) body \<and> str_includes (''## '' @ B) body"
    then show "addNewBulletsToBody body F [] B [] = body" by (rule c1)
  qed
  show ?thesis
  proof (intro conjI impI)
    assume "str_includes (''## '' @ F) body \<and> str_includes (''## '' @ B) body"
    then show "addNewBulletsToBody body F [] B [] = body" by (rule c1)
  next
    assume "str_includes (''## '' @ F) body \<and> \<not> str_includes (''## '' @ B) body"
    then show "addNewBulletsToBody body F [] B [] =
      body @ ''\<newline>\<newline>## '' @ B @ ''\<newline><!-- Bug fixes and improvements will be added here -->\<newline>''"
      by (rule c2)
  next
    assume "\<not> str_includes (''## '' @ F) body
        \<and> str_includes (''## '' @ B)
            (body @ ''\<newline>\<newline>## '' @ F @ ''\<newline><!-- New feature summaries will be added here -->\<newline>'')"
    then show "addNewBulletsToBody body F [] B [] =
      body @ ''\<newline>\<newline>## '' @ F @ ''\<newline><!-- New feature summaries will be added here -->\<newline>''"
      by (rule c3)
  next
    assume "\<not> str_includes (''## '' @ F) body
        \<and> \<not> str_includes (''## '' @ B)
            (body @ ''\<newline>\<newline>## '' @ F @ ''\<newline><!-- New feature summaries will be added here -->\<newline>'')"
    then show "addNewBulletsToBody body F [] B [] =
      body @ ''\<newline>\<newline>## '' @ F @ ''\<newline><!-- New feature summaries will be added here -->\<newline>''
        @ ''\<newline>\<newline>## '' @ B @ ''\<newline><!-- Bug fixes and improvements will be added here -->\<newline>''"
      by (rule c4)
  next
    show "str_includes (''## '' @ BUGS_SECTION)
          (body @ ''\<newline>\<newline>## '' @ FEATURES_SECTION
             @ ''\<newline><!-- New feature summaries will be added here -->\<newline>'')
        \<longleftrightarrow> str_includes (''## '' @ BUGS_SECTION) body" by (rule c5)
  next
    show "addNewBulletsToBody body F [] B [] = body
        \<longleftrightarrow> str_includes (''## '' @ F) body \<and> str_includes (''## '' @ B) body" by (rule c6)
  qed
qed

theorem addNewBulletsToBody_no_bullets_witness:
  "str_includes (''## '' @ FEATURES_SECTION) ''## New Features\<newline>- a\<newline>\<newline>## Bugs / Improvements\<newline>''
   \<and> str_includes (''## '' @ BUGS_SECTION) ''## New Features\<newline>- a\<newline>\<newline>## Bugs / Improvements\<newline>''
   \<and> addNewBulletsToBody ''## New Features\<newline>- a\<newline>\<newline>## Bugs / Improvements\<newline>''
         FEATURES_SECTION [] BUGS_SECTION []
       = ''## New Features\<newline>- a\<newline>\<newline>## Bugs / Improvements\<newline>''
   \<and> str_includes (''## '' @ FEATURES_SECTION) ''## New Features\<newline>- a\<newline>''
   \<and> \<not> str_includes (''## '' @ BUGS_SECTION) ''## New Features\<newline>- a\<newline>''
   \<and> addNewBulletsToBody ''## New Features\<newline>- a\<newline>'' FEATURES_SECTION [] BUGS_SECTION []
       = ''## New Features\<newline>- a\<newline>'' @ ''\<newline>\<newline>## '' @ BUGS_SECTION
           @ ''\<newline><!-- Bug fixes and improvements will be added here -->\<newline>''
   \<and> \<not> str_includes (''## '' @ FEATURES_SECTION) ''## Bugs / Improvements\<newline>- b\<newline>''
   \<and> str_includes (''## '' @ BUGS_SECTION)
         (''## Bugs / Improvements\<newline>- b\<newline>'' @ ''\<newline>\<newline>## '' @ FEATURES_SECTION
            @ ''\<newline><!-- New feature summaries will be added here -->\<newline>'')
   \<and> addNewBulletsToBody ''## Bugs / Improvements\<newline>- b\<newline>'' FEATURES_SECTION [] BUGS_SECTION []
       = ''## Bugs / Improvements\<newline>- b\<newline>'' @ ''\<newline>\<newline>## '' @ FEATURES_SECTION
           @ ''\<newline><!-- New feature summaries will be added here -->\<newline>''
   \<and> \<not> str_includes (''## '' @ FEATURES_SECTION) ''Intro''
   \<and> \<not> str_includes (''## '' @ BUGS_SECTION)
         (''Intro'' @ ''\<newline>\<newline>## '' @ FEATURES_SECTION
            @ ''\<newline><!-- New feature summaries will be added here -->\<newline>'')
   \<and> addNewBulletsToBody ''Intro'' FEATURES_SECTION [] BUGS_SECTION []
       = ''Intro'' @ ''\<newline>\<newline>## '' @ FEATURES_SECTION
           @ ''\<newline><!-- New feature summaries will be added here -->\<newline>''
           @ ''\<newline>\<newline>## '' @ BUGS_SECTION
           @ ''\<newline><!-- Bug fixes and improvements will be added here -->\<newline>''"
proof -
  let ?b = "''## New Features\<newline>- a\<newline>\<newline>## Bugs / Improvements\<newline>''"
  let ?f = "''## New Features\<newline>- a\<newline>''"
  let ?g = "''## Bugs / Improvements\<newline>- b\<newline>''"
  let ?F = FEATURES_SECTION and ?B = BUGS_SECTION
  have h1: "str_includes (''## '' @ ?F) ?b" by code_simp
  have h2: "str_includes (''## '' @ ?B) ?b" by code_simp
  have h3: "str_includes (''## '' @ ?F) ?f" by code_simp
  have h4: "\<not> str_includes (''## '' @ ?B) ?f" by code_simp
  have h5: "\<not> str_includes (''## '' @ ?F) ?g" by code_simp
  have h6: "str_includes (''## '' @ ?B)
         (?g @ ''\<newline>\<newline>## '' @ ?F @ ''\<newline><!-- New feature summaries will be added here -->\<newline>'')"
    by code_simp
  have h7: "\<not> str_includes (''## '' @ ?F) ''Intro''" by code_simp
  have h8: "\<not> str_includes (''## '' @ ?B)
         (''Intro'' @ ''\<newline>\<newline>## '' @ ?F @ ''\<newline><!-- New feature summaries will be added here -->\<newline>'')"
    by code_simp
  from addNewBulletsToBody_no_bullets [of ?F ?b ?B] h1 h2
  have r1: "addNewBulletsToBody ?b ?F [] ?B [] = ?b" by blast
  from addNewBulletsToBody_no_bullets [of ?F ?f ?B] h3 h4
  have r2: "addNewBulletsToBody ?f ?F [] ?B [] =
      ?f @ ''\<newline>\<newline>## '' @ ?B @ ''\<newline><!-- Bug fixes and improvements will be added here -->\<newline>''"
    by blast
  from addNewBulletsToBody_no_bullets [of ?F ?g ?B] h5 h6
  have r3: "addNewBulletsToBody ?g ?F [] ?B [] =
      ?g @ ''\<newline>\<newline>## '' @ ?F @ ''\<newline><!-- New feature summaries will be added here -->\<newline>''"
    by blast
  from addNewBulletsToBody_no_bullets [of ?F "''Intro''" ?B] h7 h8
  have r4: "addNewBulletsToBody ''Intro'' ?F [] ?B [] =
      ''Intro'' @ ''\<newline>\<newline>## '' @ ?F @ ''\<newline><!-- New feature summaries will be added here -->\<newline>''
        @ ''\<newline>\<newline>## '' @ ?B @ ''\<newline><!-- Bug fixes and improvements will be added here -->\<newline>''"
    by blast
  from h1 h2 r1 h3 h4 r2 h5 h6 r3 h7 h8 r4 show ?thesis by (intro conjI)
qed

lemma indexOf_first:
  "prefix pat (drop j s) \<Longrightarrow> j \<le> length s \<Longrightarrow> \<exists>i \<le> j. indexOf pat s = Some i"
proof (induction s arbitrary: j)
  case Nil
  then show ?case by simp
next
  case (Cons c cs)
  show ?case
  proof (cases "prefix pat (c # cs)")
    case True
    then show ?thesis by simp
  next
    case False
    with Cons.prems(1) obtain j' where j: "j = Suc j'" by (cases j) auto
    with Cons.prems have "prefix pat (drop j' cs)" "j' \<le> length cs" by simp_all
    from Cons.IH [OF this] obtain i where "i \<le> j'" "indexOf pat cs = Some i" by blast
    with False j show ?thesis by simp
  qed
qed

lemma find_Some_mem: "find P xs = Some x \<Longrightarrow> P x \<and> x \<in> set xs"
  by (induction xs) (auto split: if_splits)

text \<open>
  Where the first occurrence of the header text is the header line of the section, the
  merge keeps the text outside the section: the text before the header line and the text
  from the next header line on.
\<close>

lemma add_bullets_frame:
  assumes sp: "section_span (''## '' @ H) body = Some (a, e)"
    and first: "indexOf (''## '' @ H) body = Some a"
    and ne: "bullets \<noteq> []"
  shows "\<exists>new. add_bullets body H bullets = take a body @ new @ drop e body"
proof -
  define hdr where "hdr = ''## '' @ H"
  define stop where "stop = ''\<newline>## ''"
  define l where "l = length hdr"
  define e' where "e' = (case indexOf_from stop (a + l) body of None \<Rightarrow> length body | Some x \<Rightarrow> x)"
  note first' = first [folded hdr_def]
  from indexOf_SomeD [OF first'] have al: "a + l \<le> length body" by (simp add: l_def)
  from match_from_to_span [OF first', of stop] obtain g
    where m: "match_from_to hdr stop body = Some (a, g)"
      and occ: "indexOf g body = Some a" and len: "a + length g = e'"
    unfolding e'_def l_def by auto
  have code: "add_bullets body H bullets =
      take a body
      @ substitute g (take a body) (drop e' body)
          (take (insertPoint g) g @ join ''\<newline>'' bullets @ ''\<newline>'' @ drop (insertPoint g) g)
      @ drop e' body"
    using ne m
    unfolding add_bullets_def match_section_def hdr_def [symmetric] stop_def [symmetric]
    by (simp add: Let_def replace_first_at [OF occ] len)
  have e'_le: "e' \<le> length body"
  proof (cases "indexOf stop (drop (a + l) body)")
    case None
    then show ?thesis by (simp add: e'_def indexOf_from_def)
  next
    case (Some j)
    from indexOf_SomeD [OF Some] have "j \<le> length body - (a + l)" by simp
    with al show ?thesis by (simp add: e'_def indexOf_from_def Some)
  qed
  from sp obtain a0 where
    fa: "find (\<lambda>i. line_start body i \<and> line_at body i = hdr) [0 ..< Suc (length body)] = Some a0"
    unfolding section_span_def hdr_def [symmetric] by (auto split: option.splits simp del: upt_Suc)
  with sp have a0: "a0 = a"
    and e: "e = (case find (\<lambda>i. line_start body i \<and> prefix ''## '' (drop i body))
                   [Suc a ..< Suc (length body)] of None \<Rightarrow> length body | Some x \<Rightarrow> x)"
    unfolding section_span_def hdr_def [symmetric] by (auto simp del: upt_Suc)
  from find_Some_mem [OF fa] a0 have line: "line_at body a = hdr" by simp
  have le: "e' \<le> e \<and> e \<le> length body"
  proof (cases "find (\<lambda>i. line_start body i \<and> prefix ''## '' (drop i body))
                   [Suc a ..< Suc (length body)]")
    case None
    with e e'_le show ?thesis by simp
  next
    case (Some e0)
    with e have ee: "e = e0" by simp
    from find_Some_mem [OF Some] have q: "line_start body e0" "prefix ''## '' (drop e0 body)"
      and r: "Suc a \<le> e0" "e0 \<le> length body" by auto
    from q(1) r(1) have nl: "body ! (e0 - 1) = CHR 0x0A" by (simp add: line_start_def)
    have "a + l \<le> e0 - 1"
    proof (rule ccontr)
      assume "\<not> a + l \<le> e0 - 1"
      with r(1) have k: "e0 - 1 - a < l" "a + (e0 - 1 - a) = e0 - 1" by simp_all
      from line have tw: "takeWhile (\<lambda>c. c \<noteq> CHR 0x0A) (drop a body) = hdr"
        by (simp add: line_at_def)
      from k(1) have "e0 - 1 - a < length (takeWhile (\<lambda>c. c \<noteq> CHR 0x0A) (drop a body))"
        by (simp add: tw l_def)
      from nth_mem [OF this] takeWhile_nth [OF this]
      have "drop a body ! (e0 - 1 - a) \<in> set (takeWhile (\<lambda>c. c \<noteq> CHR 0x0A) (drop a body))"
        by simp
      then have "drop a body ! (e0 - 1 - a) \<noteq> CHR 0x0A" by (rule set_takeWhileD [THEN conjunct2])
      moreover from al k r have "drop a body ! (e0 - 1 - a) = body ! (e0 - 1)" by simp
      ultimately show False using nl by simp
    qed
    then obtain j where j: "e0 - 1 = a + l + j" by (metis le_Suc_ex)
    from r have "e0 - 1 < length body" by simp
    from Cons_nth_drop_Suc [OF this] r(1) nl have "drop (e0 - 1) body = CHR 0x0A # drop e0 body"
      by simp
    with q(2) have "prefix stop (drop (e0 - 1) body)" by (simp add: stop_def)
    moreover have "drop j (drop (a + l) body) = drop (e0 - 1) body"
      unfolding j drop_drop by (simp add: add.commute)
    ultimately have "prefix stop (drop j (drop (a + l) body))" by simp
    moreover from \<open>e0 - 1 < length body\<close> j have "j \<le> length (drop (a + l) body)" by simp
    ultimately obtain i where i: "i \<le> j" "indexOf stop (drop (a + l) body) = Some i"
      using indexOf_first by blast
    then have "e' = a + l + i" by (simp add: e'_def indexOf_from_def)
    with i(1) j r ee show ?thesis by simp
  qed
  then have "drop e' body = take (e - e') (drop e' body) @ drop e body"
    by (metis append_take_drop_id drop_drop le_add_diff_inverse2)
  with code show ?thesis by (metis append.assoc)
qed

text \<open>
  Claim C3 does not hold of the code. The section is searched as the first occurrence of
  the header text, wherever it stands, not as the header line: in a document that has a
  section \<open>New Features (beta)\<close> above the section \<open>New Features\<close>, the new bullet is
  inserted into the section above, and a bullet of that section that contains \<open>$$\<close> comes
  out with a single \<open>$\<close>. The section \<open>New Features\<close> itself spans the positions 38 to 61
  of the document and is left as it was; the text before it is changed. \<open>updateSection\<close>
  searches in the same way: a mention of the header in the introduction is taken for the
  section.
\<close>

theorem merge_alters_text_outside_section:
  "section_span (''## '' @ FEATURES_SECTION)
     ''## New Features (beta)\<newline>- x costs $$5\<newline>\<newline>## New Features\<newline>- old\<newline>\<newline>## Bugs / Improvements\<newline>''
     = Some (38, 61)
   \<and> take 38 ''## New Features (beta)\<newline>- x costs $$5\<newline>\<newline>## New Features\<newline>- old\<newline>\<newline>## Bugs / Improvements\<newline>''
     = ''## New Features (beta)\<newline>- x costs $$5\<newline>\<newline>''
   \<and> addNewBulletsToBody
       ''## New Features (beta)\<newline>- x costs $$5\<newline>\<newline>## New Features\<newline>- old\<newline>\<newline>## Bugs / Improvements\<newline>''
       FEATURES_SECTION [''- A''] BUGS_SECTION []
     = ''## New Features (beta)\<newline>- A\<newline>- x costs $5\<newline>\<newline>## New Features\<newline>- old\<newline>\<newline>## Bugs / Improvements\<newline>''
   \<and> \<not> prefix ''## New Features (beta)\<newline>- x costs $$5\<newline>\<newline>''
       (addNewBulletsToBody
          ''## New Features (beta)\<newline>- x costs $$5\<newline>\<newline>## New Features\<newline>- old\<newline>\<newline>## Bugs / Improvements\<newline>''
          FEATURES_SECTION [''- A''] BUGS_SECTION [])
   \<and> section_span ''## Notes'' ''See ## Notes below\<newline>\<newline>## Notes\<newline>- old\<newline>'' = Some (20, 35)
   \<and> take 20 ''See ## Notes below\<newline>\<newline>## Notes\<newline>- old\<newline>'' = ''See ## Notes below\<newline>\<newline>''
   \<and> updateSection ''See ## Notes below\<newline>\<newline>## Notes\<newline>- old\<newline>'' ''## Notes'' ''- new''
     = ''See ## Notes\<newline>- new\<newline>below## Notes\<newline>- old\<newline>''
   \<and> \<not> prefix ''See ## Notes below\<newline>\<newline>''
       (updateSection ''See ## Notes below\<newline>\<newline>## Notes\<newline>- old\<newline>'' ''## Notes'' ''- new'')"
proof -
  let ?b = "''## New Features (beta)\<newline>- x costs $$5\<newline>\<newline>## New Features\<newline>- old\<newline>\<newline>## Bugs / Improvements\<newline>''"
  let ?n = "''See ## Notes below\<newline>\<newline>## Notes\<newline>- old\<newline>''"
  have a: "section_span (''## '' @ FEATURES_SECTION) ?b = Some (38, 61)" by code_simp
  have b: "take 38 ?b = ''## New Features (beta)\<newline>- x costs $$5\<newline>\<newline>''" by code_simp
  have c: "addNewBulletsToBody ?b FEATURES_SECTION [''- A''] BUGS_SECTION []
     = ''## New Features (beta)\<newline>- A\<newline>- x costs $5\<newline>\<newline>## New Features\<newline>- old\<newline>\<newline>## Bugs / Improvements\<newline>''"
    by code_simp
  have d: "\<not> prefix ''## New Features (beta)\<newline>- x costs $$5\<newline>\<newline>''
       (addNewBulletsToBody ?b FEATURES_SECTION [''- A''] BUGS_SECTION [])"
    unfolding c by simp
  have e: "section_span ''## Notes'' ?n = Some (20, 35)" by code_simp
  have f: "take 20 ?n = ''See ## Notes below\<newline>\<newline>''" by code_simp
  have g: "updateSection ?n ''## Notes'' ''- new''
     = ''See ## Notes\<newline>- new\<newline>below## Notes\<newline>- old\<newline>''" by code_simp
  have h: "\<not> prefix ''See ## Notes below\<newline>\<newline>'' (updateSection ?n ''## Notes'' ''- new'')"
    unfolding g by simp
  from a b c d e f g h show ?thesis by (intro conjI)
qed

text \<open>
  Claim C4 does not hold of the code. The rebuilt section is handed to
  \<open>String.prototype.replace\<close> as the replacement text, in which \<open>$$\<close>, \<open>$&\<close>, \<open>$`\<close> and
  \<open>$'\<close> are patterns: an existing bullet that contains \<open>$$\<close> comes out with a single
  \<open>$\<close>. The second equation shows where the new bullets land when a comment stands below
  the existing bullet: after the comment, as the code's own remark says (insert after the
  header and any HTML comments), hence after that bullet.
\<close>

theorem addNewBulletsToBody_existing_bullet_altered:
  "addNewBulletsToBody
     ''## New Features\<newline>- Support $$ amounts (via [#1](u) by @a)\<newline>\<newline>## Bugs / Improvements\<newline>''
     FEATURES_SECTION [''- A'', ''- B''] BUGS_SECTION []
   = ''## New Features\<newline>- A\<newline>- B\<newline>- Support $ amounts (via [#1](u) by @a)\<newline>\<newline>## Bugs / Improvements\<newline>''
   \<and> addNewBulletsToBody
     ''## New Features\<newline>- old\<newline><!-- More features will be added here -->\<newline>\<newline>## Bugs / Improvements\<newline>''
     FEATURES_SECTION [''- A'', ''- B''] BUGS_SECTION []
   = ''## New Features\<newline>- old\<newline><!-- More features will be added here -->\<newline>- A\<newline>- B\<newline>\<newline>## Bugs / Improvements\<newline>''"
  by code_simp

text \<open>
  The example of claim C4 itself comes out as the claim says: one section, the two new
  bullets first, the old bullet last.
\<close>

lemma addNewBulletsToBody_example:
  "addNewBulletsToBody
     ''## New Features\<newline><!-- New feature summaries will be added here -->\<newline>- old\<newline>\<newline>## Bugs / Improvements\<newline>''
     FEATURES_SECTION [''- A'', ''- B''] BUGS_SECTION []
   = ''## New Features\<newline><!-- New feature summaries will be added here -->\<newline>- A\<newline>- B\<newline>- old\<newline>\<newline>## Bugs / Improvements\<newline>''"
  by code_simp

section \<open>Properties of the services\<close>

lemma bind_io_Inl [simp]: "bind_io (ws, Inl e) f = (ws, Inl e)"
  by (simp add: bind_io_def)

lemma bind_io_read_Inr [simp]: "bind_io (read_io (Inr a)) f = f a"
  by (simp add: bind_io_def read_io_def split: prod.splits)

lemma bind_io_read_Inl [simp]: "bind_io (read_io (Inl e)) f = ([], Inl e)"
  by (simp add: bind_io_def read_io_def)

lemma bind_io_return [simp]: "bind_io (return_io a) f = f a"
  by (simp add: bind_io_def return_io_def split: prod.splits)

lemma outcome_simps [simp]: "outcome None = Inr ()" "outcome (Some e) = Inl e"
  by (simp_all add: outcome_def)

lemma aiEnabled_default: "aiEnabled \<lparr>config = DEFAULT_CONFIG\<rparr>"
  by (simp add: aiEnabled_def DEFAULT_CONFIG_def)


lemma callOpenAI_disabled: "\<not> aiEnabled svc \<Longrightarrow> callOpenAI svc chat = Inr None"
  by (simp add: callOpenAI_def Let_def)

lemma callOpenAI_enabled_not_null: "aiEnabled svc \<Longrightarrow> callOpenAI svc chat \<noteq> Inr None"
  by (simp add: callOpenAI_def Let_def split: sum.splits list.splits)

lemma callOpenAI_enabled_failure:
  "aiEnabled svc \<Longrightarrow> chat = Inl e \<Longrightarrow> \<exists>e'. callOpenAI svc chat = Inl e'"
  by (simp add: callOpenAI_def Let_def)

lemma callOpenAI_enabled_no_content:
  "aiEnabled svc \<Longrightarrow> chat = Inr (None # cs) \<or> chat = Inr (Some [] # cs)
     \<Longrightarrow> \<exists>e'. callOpenAI svc chat = Inl e'"
  by (auto simp: callOpenAI_def Let_def)

lemma handleFeatureMergedToStaging_skips:
  "w_prDetails w = None \<Longrightarrow> callOpenAI svc (w_chat_summary w) = Inr None
     \<Longrightarrow> handleFeatureMergedToStaging svc w pr = ([], Inr ())"
  by (simp add: handleFeatureMergedToStaging_def return_io_def)

lemma handleFeatureMergedToStaging_fails:
  "w_prDetails w = None \<Longrightarrow> callOpenAI svc (w_chat_summary w) = Inl e
     \<Longrightarrow> handleFeatureMergedToStaging svc w pr = ([], Inl e)"
  by (simp add: handleFeatureMergedToStaging_def)

lemma callOpenAI_default_never_null:
  "callOpenAI \<lparr>config = DEFAULT_CONFIG\<rparr> chat \<noteq> Inr None
   \<and> callOpenAI \<lparr>config = DEFAULT_CONFIG\<rparr> chat \<noteq> Inr (Some [])"
  using aiEnabled_default
  by (simp add: callOpenAI_def Let_def DEFAULT_CONFIG_def split: sum.splits list.splits)

text \<open>
  Claim C5 does not hold of the code. \<open>callOpenAI\<close> returns \<open>null\<close> only when the AI
  feature is disabled by configuration. With the feature enabled, as it is in the
  configuration that the service holds, a failed request to the classification service
  and an answer without content both make \<open>callOpenAI\<close> throw.
  \<open>handleFeatureMergedToStaging\<close> tests the result for \<open>null\<close>, to skip the update, but
  has no handler for the error, and neither has the event handler: the event fails with
  the error of the call, before any remote write.
\<close>

theorem callOpenAI_failure_raises:
  "callOpenAI \<lparr>config = DEFAULT_CONFIG\<rparr> (Inl (RequestError 500)) = Inl (RequestError 500)
   \<and> callOpenAI \<lparr>config = DEFAULT_CONFIG\<rparr> (Inr [None]) = Inl (Thrown ''No response from OpenAI'')
   \<and> callOpenAI \<lparr>config = DEFAULT_CONFIG\<rparr> (Inr [Some []]) = Inl (Thrown ''No response from OpenAI'')
   \<and> handleFeatureMergedToStaging \<lparr>config = DEFAULT_CONFIG\<rparr>
         (sample_world\<lparr>w_chat_summary := Inl (RequestError 500)\<rparr>) sample_pr
       = ([], Inl (RequestError 500))
   \<and> handleFeatureMergedToStaging \<lparr>config = DEFAULT_CONFIG\<rparr>
         (sample_world\<lparr>w_chat_summary := Inr [None]\<rparr>) sample_pr
       = ([], Inl (Thrown ''No response from OpenAI''))
   \<and> snd (probotHandler (sample_world\<lparr>w_chat_summary := Inl (RequestError 500)\<rparr>) sample_pr)
       = ([], Inl (RequestError 500))
   \<and> snd (probotHandler_handlers (sample_world\<lparr>w_chat_summary := Inr [None]\<rparr>) sample_pr)
       = ([], Inl (Thrown ''No response from OpenAI''))"
proof -
  let ?svc = "\<lparr>config = DEFAULT_CONFIG\<rparr>"
  let ?w1 = "sample_world\<lparr>w_chat_summary := Inl (RequestError 500)\<rparr>"
  let ?w2 = "sample_world\<lparr>w_chat_summary := Inr [None]\<rparr>"
  have a: "callOpenAI ?svc (Inl (RequestError 500)) = Inl (RequestError 500)"
    using aiEnabled_default by (simp add: callOpenAI_def Let_def DEFAULT_CONFIG_def)
  have b: "callOpenAI ?svc (Inr [None]) = Inl (Thrown ''No response from OpenAI'')"
    using aiEnabled_default by (simp add: callOpenAI_def Let_def DEFAULT_CONFIG_def)
  have c: "callOpenAI ?svc (Inr [Some []]) = Inl (Thrown ''No response from OpenAI'')"
    using aiEnabled_default by (simp add: callOpenAI_def Let_def DEFAULT_CONFIG_def)
  have d1: "w_prDetails ?w1 = None" "w_chat_summary ?w1 = Inl (RequestError 500)"
    by (simp_all add: sample_world_def)
  have d2: "w_prDetails ?w2 = None" "w_chat_summary ?w2 = Inr [None]"
    by (simp_all add: sample_world_def)
  have e1: "handleFeatureMergedToStaging ?svc ?w1 sample_pr = ([], Inl (RequestError 500))"
    using handleFeatureMergedToStaging_fails [OF d1(1), of ?svc "RequestError 500" sample_pr] a d1(2)
    by simp
  have e2: "handleFeatureMergedToStaging ?svc ?w2 sample_pr
      = ([], Inl (Thrown ''No response from OpenAI''))"
    using handleFeatureMergedToStaging_fails
      [OF d2(1), of ?svc "Thrown ''No response from OpenAI''" sample_pr] b d2(2)
    by simp
  have n1: "new_PRService ?w1 = Inr ?svc" "new_PRService ?w2 = Inr ?svc"
    by (simp_all add: new_PRService_def sample_world_def)
  have l1: "loadConfig ?svc ?w1 = (?svc, Inr DEFAULT_CONFIG)"
    "loadConfig ?svc ?w2 = (?svc, Inr DEFAULT_CONFIG)"
    by (simp_all add: loadConfig_def sample_world_def)
  have m: "pr_merged sample_pr" "pr_base_ref sample_pr = ''staging''"
    "pr_head_ref sample_pr = ''feature/login''"
    by (simp_all add: sample_pr_def)
  have br: "Option.bind (cfg_branches DEFAULT_CONFIG) br_staging = Some ''staging''"
    "Option.bind (cfg_branches DEFAULT_CONFIG) br_release = Some ''main''"
    by (simp_all add: DEFAULT_CONFIG_def)
  have f1: "snd (probotHandler ?w1 sample_pr) = ([], Inl (RequestError 500))"
    unfolding probotHandler_def by (simp add: m n1 l1 br e1)
  have f2: "snd (probotHandler_handlers ?w2 sample_pr)
      = ([], Inl (Thrown ''No response from OpenAI''))"
    unfolding probotHandler_handlers_def by (simp add: m n1 l1 e2)
  from a b c e1 e2 f1 f2 show ?thesis by (intro conjI)
qed

text \<open>
  Claim C7. \<open>loadConfig\<close> returns the built-in defaults when the request for the
  configuration file is answered with status 404, and propagates an error, instead of
  falling back to the defaults, when the file exists and its content does not parse as
  JSON.
\<close>

theorem loadConfig_missing_or_malformed:
  "(w_getContent w = Inl (RequestError 404) \<longrightarrow> snd (loadConfig svc w) = Inr DEFAULT_CONFIG)
   \<and> (\<forall>content. w_getContent w = Inr (FileData content)
          \<and> w_json_parse w (w_decode_base64 w content) = None
        \<longrightarrow> snd (loadConfig svc w) = Inl (Thrown ''SyntaxError'')
            \<and> snd (loadConfig svc w) \<noteq> Inr DEFAULT_CONFIG)"
  by (auto simp: loadConfig_def Let_def)

theorem loadConfig_missing_or_malformed_witness:
  "w_getContent sample_world = Inl (RequestError 404)
   \<and> snd (loadConfig \<lparr>config = DEFAULT_CONFIG\<rparr> sample_world) = Inr DEFAULT_CONFIG
   \<and> w_getContent (sample_world\<lparr>w_getContent := Inr (FileData ''oops'')\<rparr>) = Inr (FileData ''oops'')
   \<and> w_json_parse (sample_world\<lparr>w_getContent := Inr (FileData ''oops'')\<rparr>)
        (w_decode_base64 (sample_world\<lparr>w_getContent := Inr (FileData ''oops'')\<rparr>) ''oops'') = None
   \<and> snd (loadConfig \<lparr>config = DEFAULT_CONFIG\<rparr> (sample_world\<lparr>w_getContent := Inr (FileData ''oops'')\<rparr>))
       = Inl (Thrown ''SyntaxError'')"
proof -
  let ?w = "sample_world\<lparr>w_getContent := Inr (FileData ''oops'')\<rparr>"
  have h1: "w_getContent sample_world = Inl (RequestError 404)"
    by (simp add: sample_world_def)
  have h2: "w_getContent ?w = Inr (FileData ''oops'')" by simp
  have h3: "w_json_parse ?w (w_decode_base64 ?w ''oops'') = None"
    by (simp add: sample_world_def)
  from loadConfig_missing_or_malformed [of sample_world "\<lparr>config = DEFAULT_CONFIG\<rparr>"] h1
  have r1: "snd (loadConfig \<lparr>config = DEFAULT_CONFIG\<rparr> sample_world) = Inr DEFAULT_CONFIG"
    by blast
  from loadConfig_missing_or_malformed [of ?w "\<lparr>config = DEFAULT_CONFIG\<rparr>"] h2 h3
  have r2: "snd (loadConfig \<lparr>config = DEFAULT_CONFIG\<rparr> ?w) = Inl (Thrown ''SyntaxError'')"
    by blast
  from h1 h2 h3 r1 r2 show ?thesis by blast
qed

lemma find_none: "(\<forall>p \<in> set xs. \<not> P p) \<Longrightarrow> find P xs = None"
  by (induction xs) simp_all

lemma find_unique:
  assumes "d \<in> set xs" and "P d" and "\<forall>p \<in> set xs. P p \<longrightarrow> p = d"
  shows "find P xs = Some d"
  using assms
proof (induction xs)
  case Nil
  then show ?case by simp
next
  case (Cons x xs)
  show ?case
  proof (cases "P x")
    case True
    with Cons.prems(3) have "x = d" by simp
    with True show ?thesis by simp
  next
    case False
    with Cons.prems(1,2) have "d \<in> set xs" by auto
    moreover from Cons.prems(3) have "\<forall>p \<in> set xs. P p \<longrightarrow> p = d" by simp
    ultimately have "find P xs = Some d" using Cons.IH Cons.prems(2) by blast
    with False show ?thesis by simp
  qed
qed

text \<open>
  Claim C8. For every non-empty listing of open staging-to-release candidates (so also for
  every listing of two or more), whether it answers the first query or, the first being
  empty, the retry with the plain branch name: when exactly one candidate is flagged as a
  draft, \<open>findStagingToReleasePR\<close> returns that candidate wherever it stands in the
  listing; when no candidate is flagged, it returns the first candidate of the listing.
\<close>

theorem findStagingToReleasePR_prefers_draft:
  assumes "prs \<noteq> []"
    and "w_list_pulls w (w_owner w @ '':'' @ stagingBranch svc) (releaseBranch svc) = Inr prs
       \<or> (w_list_pulls w (w_owner w @ '':'' @ stagingBranch svc) (releaseBranch svc) = Inr []
          \<and> w_list_pulls w (stagingBranch svc) (releaseBranch svc) = Inr prs)"
  shows "(\<forall>d. d \<in> set prs \<and> is_draft d \<and> (\<forall>p \<in> set prs. is_draft p \<longrightarrow> p = d)
            \<longrightarrow> findStagingToReleasePR svc w = Some d)
       \<and> ((\<forall>p \<in> set prs. \<not> is_draft p) \<longrightarrow> findStagingToReleasePR svc w = Some (hd prs))"
proof -
  have sel: "(case find is_draft prs of Some p \<Rightarrow> Some p | None \<Rightarrow> nth_opt prs 0) = Some d"
    if "d \<in> set prs" "is_draft d" "\<forall>p \<in> set prs. is_draft p \<longrightarrow> p = d" for d
    using find_unique [OF that] by simp
  have fst_: "(case find is_draft prs of Some p \<Rightarrow> Some p | None \<Rightarrow> nth_opt prs 0) = Some (hd prs)"
    if "\<forall>p \<in> set prs. \<not> is_draft p"
    using find_none [OF that] assms(1) by (simp add: nth_opt_def hd_conv_nth)
  have eq: "findStagingToReleasePR svc w =
      (case find is_draft prs of Some p \<Rightarrow> Some p | None \<Rightarrow> nth_opt prs 0)"
  proof -
    from assms(1) have len: "length prs \<noteq> 0" "0 < length prs" by simp_all
    from assms(2) show ?thesis
    proof
      assume q: "w_list_pulls w (w_owner w @ '':'' @ stagingBranch svc) (releaseBranch svc) = Inr prs"
      show ?thesis
        unfolding findStagingToReleasePR_def q using len
        by (simp split: option.split)
    next
      assume q: "w_list_pulls w (w_owner w @ '':'' @ stagingBranch svc) (releaseBranch svc) = Inr []
          \<and> w_list_pulls w (stagingBranch svc) (releaseBranch svc) = Inr prs"
      then have q1: "w_list_pulls w (w_owner w @ '':'' @ stagingBranch svc) (releaseBranch svc) = Inr []"
        and q2: "w_list_pulls w (stagingBranch svc) (releaseBranch svc) = Inr prs" by blast+
      show ?thesis
        unfolding findStagingToReleasePR_def q1 q2 using len
        by (simp split: option.split)
    qed
  qed
  show ?thesis
  proof (intro conjI allI impI)
    fix d
    assume "d \<in> set prs \<and> is_draft d \<and> (\<forall>p \<in> set prs. is_draft p \<longrightarrow> p = d)"
    then have "d \<in> set prs" "is_draft d" "\<forall>p \<in> set prs. is_draft p \<longrightarrow> p = d"
      by simp_all
    from sel [OF this] show "findStagingToReleasePR svc w = Some d" by (simp only: eq)
  next
    assume "\<forall>p \<in> set prs. \<not> is_draft p"
    from fst_ [OF this] show "findStagingToReleasePR svc w = Some (hd prs)" by (simp only: eq)
  qed
qed

theorem findStagingToReleasePR_prefers_draft_witness:
  "[sample_pr, sample_draft] \<noteq> []
   \<and> is_draft sample_draft \<and> \<not> is_draft sample_pr
   \<and> findStagingToReleasePR \<lparr>config = DEFAULT_CONFIG\<rparr>
        (sample_world\<lparr>w_list_pulls := (\<lambda>h b. Inr [sample_pr, sample_draft])\<rparr>) = Some sample_draft
   \<and> findStagingToReleasePR \<lparr>config = DEFAULT_CONFIG\<rparr>
        (sample_world\<lparr>w_list_pulls := (\<lambda>h b. Inr [sample_draft, sample_pr])\<rparr>) = Some sample_draft
   \<and> findStagingToReleasePR \<lparr>config = DEFAULT_CONFIG\<rparr>
        (sample_world\<lparr>w_list_pulls := (\<lambda>h b. Inr [sample_pr, sample_pr\<lparr>pr_number := 13\<rparr>])\<rparr>)
       = Some sample_pr"
proof -
  let ?svc = "\<lparr>config = DEFAULT_CONFIG\<rparr>"
  let ?w1 = "sample_world\<lparr>w_list_pulls := (\<lambda>h b. Inr [sample_pr, sample_draft])\<rparr>"
  let ?w2 = "sample_world\<lparr>w_list_pulls := (\<lambda>h b. Inr [sample_draft, sample_pr])\<rparr>"
  let ?w3 = "sample_world\<lparr>w_list_pulls := (\<lambda>h b. Inr [sample_pr, sample_pr\<lparr>pr_number := 13\<rparr>])\<rparr>"
  have d: "is_draft sample_draft" by (simp add: is_draft_def sample_draft_def)
  have n: "\<not> is_draft sample_pr" by (simp add: is_draft_def sample_pr_def)
  have n': "\<not> is_draft (sample_pr\<lparr>pr_number := 13\<rparr>)" by (simp add: is_draft_def sample_pr_def)
  have ne: "[sample_pr, sample_draft] \<noteq> []" "[sample_draft, sample_pr] \<noteq> []"
    "[sample_pr, sample_pr\<lparr>pr_number := 13\<rparr>] \<noteq> []" by simp_all
  have u1: "\<forall>p \<in> set [sample_pr, sample_draft]. is_draft p \<longrightarrow> p = sample_draft"
    using n by simp
  have u2: "\<forall>p \<in> set [sample_draft, sample_pr]. is_draft p \<longrightarrow> p = sample_draft"
    using n by simp
  have u3: "\<forall>p \<in> set [sample_pr, sample_pr\<lparr>pr_number := 13\<rparr>]. \<not> is_draft p"
    using n n' by simp
  have l1: "w_list_pulls ?w1 (w_owner ?w1 @ '':'' @ stagingBranch ?svc) (releaseBranch ?svc)
      = Inr [sample_pr, sample_draft]" by simp
  have l2: "w_list_pulls ?w2 (w_owner ?w2 @ '':'' @ stagingBranch ?svc) (releaseBranch ?svc)
      = Inr [sample_draft, sample_pr]" by simp
  have l3: "w_list_pulls ?w3 (w_owner ?w3 @ '':'' @ stagingBranch ?svc) (releaseBranch ?svc)
      = Inr [sample_pr, sample_pr\<lparr>pr_number := 13\<rparr>]" by simp
  from findStagingToReleasePR_prefers_draft [OF ne(1) disjI1, OF l1] d u1
  have r1: "findStagingToReleasePR ?svc ?w1 = Some sample_draft" by simp
  from findStagingToReleasePR_prefers_draft [OF ne(2) disjI1, OF l2] d u2
  have r2: "findStagingToReleasePR ?svc ?w2 = Some sample_draft" by simp
  from findStagingToReleasePR_prefers_draft [OF ne(3) disjI1, OF l3] u3
  have r3: "findStagingToReleasePR ?svc ?w3 = Some sample_pr" by simp
  from ne(1) d n r1 r2 r3 show ?thesis by blast
qed

section \<open>Properties of the event handler\<close>

lemma getCurrentVersion_file:
  "getCurrentVersion svc (w\<lparr>w_getContent := g\<rparr>) = getCurrentVersion svc w"
  by (simp add: getCurrentVersion_def cong: sum.case_cong list.case_cong)

lemma findStagingToReleasePR_file:
  "findStagingToReleasePR svc (w\<lparr>w_getContent := g\<rparr>) = findStagingToReleasePR svc w"
  by (simp add: findStagingToReleasePR_def cong: sum.case_cong if_cong)

lemma updatePRTitleWithInfo_file:
  "updatePRTitleWithInfo svc (w\<lparr>w_getContent := g\<rparr>) n vt s = updatePRTitleWithInfo svc w n vt s"
  by (simp add: updatePRTitleWithInfo_def getCurrentVersion_file)

lemma updatePRTitle_file:
  "updatePRTitle svc (w\<lparr>w_getContent := g\<rparr>) n a = updatePRTitle svc w n a"
  by (simp add: updatePRTitle_def updatePRTitleWithInfo_file Let_def cong: if_cong)

lemma updatePRWithAISummary_file:
  "updatePRWithAISummary svc (w\<lparr>w_getContent := g\<rparr>) pr n a = updatePRWithAISummary svc w pr n a"
  by (simp add: updatePRWithAISummary_def)

lemma addSummaryComment_file:
  "addSummaryComment (w\<lparr>w_getContent := g\<rparr>) pr n a = addSummaryComment w pr n a"
  by (simp add: addSummaryComment_def)

lemma updateStagingToReleasePR_file:
  "updateStagingToReleasePR svc (w\<lparr>w_getContent := g\<rparr>) pr a = updateStagingToReleasePR svc w pr a"
  by (simp add: updateStagingToReleasePR_def findStagingToReleasePR_file getCurrentVersion_file
      updatePRWithAISummary_file addSummaryComment_file updatePRTitle_file Let_def
      cong: if_cong)

lemma handleFeatureMergedToStaging_file:
  "handleFeatureMergedToStaging svc (w\<lparr>w_getContent := g\<rparr>) pr = handleFeatureMergedToStaging svc w pr"
  by (simp add: handleFeatureMergedToStaging_def updateStagingToReleasePR_file cong: if_cong)

lemma handleStagingMergedToRelease_file:
  "handleStagingMergedToRelease svc (w\<lparr>w_getContent := g\<rparr>) pr = handleStagingMergedToRelease svc w pr"
  by (simp add: handleStagingMergedToRelease_def Let_def cong: if_cong option.case_cong)

lemma new_PRService_file: "new_PRService (w\<lparr>w_getContent := g\<rparr>) = new_PRService w"
  by (simp add: new_PRService_def)

lemma new_PRService_config: "new_PRService w = Inr svc \<Longrightarrow> config svc = DEFAULT_CONFIG"
  by (auto simp: new_PRService_def split: if_splits)

lemma loadConfig_keeps_service: "fst (loadConfig svc w) = svc"
  by (simp add: loadConfig_def Let_def)

lemma probotHandler_service:
  "fst (probotHandler w pr) = Some svc \<Longrightarrow> config svc = DEFAULT_CONFIG"
proof -
  assume a: "fst (probotHandler w pr) = Some svc"
  show ?thesis
  proof (cases "new_PRService w")
    case (Inl e)
    with a show ?thesis by (simp add: probotHandler_def split: if_splits)
  next
    case (Inr s0)
    obtain s1 r where l: "loadConfig s0 w = (s1, r)" by (cases "loadConfig s0 w")
    from loadConfig_keeps_service [of s0 w] l have "s1 = s0" by simp
    with a Inr l have "svc = s0" by (simp add: probotHandler_def split: if_splits)
    with new_PRService_config [OF Inr] show ?thesis by simp
  qed
qed

lemma probotHandler_handlers_service:
  "fst (probotHandler_handlers w pr) = Some svc \<Longrightarrow> config svc = DEFAULT_CONFIG"
proof -
  assume a: "fst (probotHandler_handlers w pr) = Some svc"
  show ?thesis
  proof (cases "new_PRService w")
    case (Inl e)
    with a show ?thesis by (simp add: probotHandler_handlers_def split: if_splits)
  next
    case (Inr s0)
    obtain s1 r where l: "loadConfig s0 w = (s1, r)" by (cases "loadConfig s0 w")
    from loadConfig_keeps_service [of s0 w] l have "s1 = s0" by simp
    with a Inr l have "svc = s0" by (simp add: probotHandler_handlers_def split: if_splits)
    with new_PRService_config [OF Inr] show ?thesis by simp
  qed
qed

lemma probotHandler_file:
  assumes "snd (loadConfig \<lparr>config = DEFAULT_CONFIG\<rparr> w) = Inr c"
    and "snd (loadConfig \<lparr>config = DEFAULT_CONFIG\<rparr> (w\<lparr>w_getContent := g\<rparr>)) = Inr c'"
  shows "probotHandler (w\<lparr>w_getContent := g\<rparr>) pr = probotHandler w pr"
proof (cases "new_PRService w")
  case (Inl e)
  then show ?thesis by (simp add: probotHandler_def new_PRService_file)
next
  case (Inr s0)
  from new_PRService_config [OF Inr] have s0: "s0 = \<lparr>config = DEFAULT_CONFIG\<rparr>" by simp
  from assms(1) loadConfig_keeps_service [of s0 w]
  have l1: "loadConfig s0 w = (s0, Inr c)" unfolding s0
    by (cases "loadConfig \<lparr>config = DEFAULT_CONFIG\<rparr> w") simp
  from assms(2) loadConfig_keeps_service [of s0 "w\<lparr>w_getContent := g\<rparr>"]
  have l2: "loadConfig s0 (w\<lparr>w_getContent := g\<rparr>) = (s0, Inr c')" unfolding s0
    by (cases "loadConfig \<lparr>config = DEFAULT_CONFIG\<rparr> (w\<lparr>w_getContent := g\<rparr>)") simp
  show ?thesis
    unfolding probotHandler_def new_PRService_file Inr sum.case l1 l2 prod.case
      handleFeatureMergedToStaging_file handleStagingMergedToRelease_file bind_io_read_Inr
    by (rule refl)
qed

text \<open>
  Claim C10. For every processed event the \<open>config\<close> field of the service is
  \<open>DEFAULT_CONFIG\<close>: the constructor sets it, \<open>loadConfig\<close> hands the service back as it
  was (the defaults or the merged configuration are only returned), and both event handlers
  drop what \<open>loadConfig\<close> returns, so the service they end with holds the default
  configuration. Hence, when loading does not throw, the outcome of the event, every remote
  write included, is the same whatever the request for the repository's configuration file
  answers.
\<close>

theorem service_config_is_always_default:
  "(\<forall>svc. new_PRService w = Inr svc \<longrightarrow> config svc = DEFAULT_CONFIG)
   \<and> fst (loadConfig svc0 w) = svc0
   \<and> (\<forall>svc. fst (probotHandler w pr) = Some svc \<longrightarrow> config svc = DEFAULT_CONFIG)
   \<and> (\<forall>svc. fst (probotHandler_handlers w pr) = Some svc \<longrightarrow> config svc = DEFAULT_CONFIG)
   \<and> (\<forall>g c c'. snd (loadConfig \<lparr>config = DEFAULT_CONFIG\<rparr> w) = Inr c
         \<and> snd (loadConfig \<lparr>config = DEFAULT_CONFIG\<rparr> (w\<lparr>w_getContent := g\<rparr>)) = Inr c'
       \<longrightarrow> probotHandler (w\<lparr>w_getContent := g\<rparr>) pr = probotHandler w pr)"
proof (intro conjI allI impI)
  fix svc assume "new_PRService w = Inr svc"
  then show "config svc = DEFAULT_CONFIG" by (rule new_PRService_config)
next
  show "fst (loadConfig svc0 w) = svc0" by (rule loadConfig_keeps_service)
next
  fix svc assume "fst (probotHandler w pr) = Some svc"
  then show "config svc = DEFAULT_CONFIG" by (rule probotHandler_service)
next
  fix svc assume "fst (probotHandler_handlers w pr) = Some svc"
  then show "config svc = DEFAULT_CONFIG" by (rule probotHandler_handlers_service)
next
  fix g c c'
  assume a: "snd (loadConfig \<lparr>config = DEFAULT_CONFIG\<rparr> w) = Inr c
         \<and> snd (loadConfig \<lparr>config = DEFAULT_CONFIG\<rparr> (w\<lparr>w_getContent := g\<rparr>)) = Inr c'"
  show "probotHandler (w\<lparr>w_getContent := g\<rparr>) pr = probotHandler w pr"
    by (rule probotHandler_file [OF conjunct1 [OF a] conjunct2 [OF a]])
qed

theorem service_config_is_always_default_witness:
  "snd (loadConfig \<lparr>config = DEFAULT_CONFIG\<rparr> sample_world) = Inr DEFAULT_CONFIG
   \<and> (\<exists>c'. snd (loadConfig \<lparr>config = DEFAULT_CONFIG\<rparr>
               (sample_world\<lparr>w_getContent := Inr (FileData ''{}'')\<rparr>)) = Inr c'
          \<and> Option.bind (cfg_release c') rel_prefix = Some ''rel-'')
   \<and> fst (probotHandler (sample_world\<lparr>w_getContent := Inr (FileData ''{}'')\<rparr>) sample_pr)
       = Some \<lparr>config = DEFAULT_CONFIG\<rparr>
   \<and> config \<lparr>config = DEFAULT_CONFIG\<rparr> = DEFAULT_CONFIG
   \<and> probotHandler (sample_world\<lparr>w_getContent := Inr (FileData ''{}'')\<rparr>) sample_pr
       = probotHandler sample_world sample_pr"
proof -
  let ?svc = "\<lparr>config = DEFAULT_CONFIG\<rparr>"
  let ?w = "sample_world\<lparr>w_getContent := Inr (FileData ''{}'')\<rparr>"
  let ?c = "DEFAULT_CONFIG \<lparr> cfg_release := Some \<lparr> rel_prefix = Some ''rel-'',
        rel_createDraft = Some False, rel_prerelease = Some False,
        rel_generateReleaseNotes = Some True \<rparr> \<rparr>"
  have l1: "snd (loadConfig ?svc sample_world) = Inr DEFAULT_CONFIG"
    by (simp add: loadConfig_def sample_world_def)
  have l2: "snd (loadConfig ?svc ?w) = Inr ?c"
    by (simp add: loadConfig_def sample_world_def)
  have p: "Option.bind (cfg_release ?c) rel_prefix = Some ''rel-''" by simp
  have m: "pr_merged sample_pr" by (simp add: sample_pr_def)
  have n: "new_PRService ?w = Inr ?svc" by (simp add: new_PRService_def sample_world_def)
  have l: "loadConfig ?svc ?w = (?svc, Inr ?c)"
    using l2 loadConfig_keeps_service [of ?svc ?w] by (cases "loadConfig ?svc ?w") simp
  have f: "fst (probotHandler ?w sample_pr) = Some ?svc"
    using m by (simp add: probotHandler_def n l)
  note t = service_config_is_always_default [of ?w ?svc sample_pr]
  from t f have d: "config ?svc = DEFAULT_CONFIG" by blast
  note t' = service_config_is_always_default [of sample_world ?svc sample_pr]
  from t' l1 l2 have e: "probotHandler ?w sample_pr = probotHandler sample_world sample_pr"
    by blast
  from l1 l2 p f d e show ?thesis by blast
qed

section \<open>Properties of the titles\<close>

lemma length_toUpperCase [simp]: "length (toUpperCase s) = length s"
  by (simp add: toUpperCase_def)

lemma toUpperCase_append [simp]: "toUpperCase (a @ b) = toUpperCase a @ toUpperCase b"
  by (simp add: toUpperCase_def)

lemma ci_prefix_iff:
  "ci_prefix p s \<longleftrightarrow> length p \<le> length s \<and> toUpperCase (take (length p) s) = toUpperCase p"
  by (induction p s rule: ci_prefix.induct) (auto simp: toUpperCase_def)

lemma ci_prefix_append:
  "length x = length p \<Longrightarrow> ci_prefix p (x @ y) \<longleftrightarrow> toUpperCase x = toUpperCase p"
  by (simp add: ci_prefix_iff)

lemma ci_prefix_split:
  "ci_prefix p s \<Longrightarrow> s = take (length p) s @ drop (length p) s
     \<and> toUpperCase (take (length p) s) = toUpperCase p \<and> length (take (length p) s) = length p"
  by (simp add: ci_prefix_iff)

lemma not_digit_dot: "\<not> is_digit CHR ''.''" and not_digit_colon: "\<not> is_digit CHR '':''"
  by (simp_all add: is_digit_def)

lemma match_digits_SomeD:
  "match_digits s = Some (ds, r) \<Longrightarrow> s = ds @ r \<and> all_digits ds"
proof -
  assume a: "match_digits s = Some (ds, r)"
  then have ds: "ds = takeWhile is_digit s" and ne: "ds \<noteq> []" and r: "r = drop (length ds) s"
    by (auto simp: match_digits_def Let_def split: if_splits)
  have "list_all is_digit (takeWhile is_digit s)"
    by (simp add: list_all_iff) (meson set_takeWhileD)
  moreover have "s = takeWhile is_digit s @ drop (length (takeWhile is_digit s)) s"
    by (metis takeWhile_dropWhile_id dropWhile_eq_drop)
  ultimately show ?thesis using ds ne r by (simp add: all_digits_def)
qed

lemma match_digits_append:
  assumes "all_digits ds" and "r = [] \<or> \<not> is_digit (hd r)"
  shows "match_digits (ds @ r) = Some (ds, r)"
proof -
  from assms(1) have all: "\<forall>x \<in> set ds. is_digit x" and ne: "ds \<noteq> []"
    by (simp_all add: all_digits_def list_all_iff)
  have "takeWhile is_digit (ds @ r) = ds"
  proof (cases r)
    case Nil
    with all show ?thesis by simp
  next
    case (Cons c cs)
    with assms(2) have "\<not> is_digit c" by simp
    with all Cons show ?thesis by (simp add: takeWhile_append2)
  qed
  with ne show ?thesis by (simp add: match_digits_def Let_def)
qed

lemma upper_consts:
  "toUpperCase ''MAJOR'' = ''MAJOR''" "toUpperCase ''MINOR'' = ''MINOR''"
  "toUpperCase ''PATCH'' = ''PATCH''" "toUpperCase '' Release: '' = '' RELEASE: ''"
  "toUpperCase ''v'' = ''V''" "ascii_upper CHR ''v'' = CHR ''V''"
  by code_simp+

lemma ascii_upper_digit: "is_digit c \<Longrightarrow> ascii_upper c = c"
  by (simp add: is_digit_def ascii_upper_def)

lemma not_digit_V: "\<not> is_digit CHR ''V''"
  by (simp add: is_digit_def)

lemma digit_not_v: "is_digit c \<Longrightarrow> CHR ''V'' \<noteq> ascii_upper c"
  using ascii_upper_digit not_digit_V by metis

lemma ci_prefix_split_at:
  "ci_prefix p s \<Longrightarrow> length p = n \<Longrightarrow> s = take n s @ drop n s
     \<and> toUpperCase (take n s) = toUpperCase p \<and> length (take n s) = n"
  by (auto simp: ci_prefix_iff)

lemma prefix_dotD: "prefix ''.'' s \<Longrightarrow> s = ''.'' @ drop 1 s"
  by (cases s) simp_all

lemma prefix_colonD: "prefix '':'' s \<Longrightarrow> s = '':'' @ drop 1 s"
  by (cases s) simp_all

lemma match_version_number_SomeD:
  assumes "match_version_number s = Some (t, r)"
  shows "\<exists>v d1 d2 d3. s = t @ r \<and> t = v @ d1 @ ''.'' @ d2 @ ''.'' @ d3
    \<and> (v = [] \<or> toUpperCase v = ''V'')
    \<and> all_digits d1 \<and> all_digits d2 \<and> all_digits d3"
proof -
  define v where "v = (if ci_prefix ''v'' s then take 1 s else [])"
  have v: "v = [] \<or> toUpperCase v = ''V''"
  proof (cases "ci_prefix ''v'' s")
    case True
    from ci_prefix_split [OF True] show ?thesis by (simp add: v_def True upper_consts)
  next
    case False
    then show ?thesis by (simp add: v_def)
  qed
  have sv: "s = v @ drop (length v) s"
  proof (cases "ci_prefix ''v'' s")
    case True
    from ci_prefix_split [OF True] show ?thesis by (simp add: v_def True)
  next
    case False
    then show ?thesis by (simp add: v_def)
  qed
  from assms obtain d1 s2 where m1: "match_digits (drop (length v) s) = Some (d1, s2)"
    unfolding match_version_number_def v_def [symmetric] Let_def
    by (auto split: option.splits)
  from assms m1 have p1: "prefix ''.'' s2"
    unfolding match_version_number_def v_def [symmetric] Let_def
    by (auto split: option.splits if_splits)
  from assms m1 p1 obtain d2 s3 where m2: "match_digits (drop 1 s2) = Some (d2, s3)"
    unfolding match_version_number_def v_def [symmetric] Let_def
    by (auto split: option.splits if_splits)
  from assms m1 p1 m2 have p2: "prefix ''.'' s3"
    unfolding match_version_number_def v_def [symmetric] Let_def
    by (auto split: option.splits if_splits)
  from assms m1 p1 m2 p2 obtain d3 where m3: "match_digits (drop 1 s3) = Some (d3, r)"
    and t: "t = v @ d1 @ ''.'' @ d2 @ ''.'' @ d3"
    unfolding match_version_number_def v_def [symmetric] Let_def
    by (auto split: option.splits if_splits)
  note a1 = match_digits_SomeD [OF m1] and a2 = match_digits_SomeD [OF m2]
    and a3 = match_digits_SomeD [OF m3]
  have "s = v @ d1 @ s2" using sv a1 by simp
  also have "s2 = ''.'' @ d2 @ s3" using prefix_dotD [OF p1] a2 by simp
  also have "s3 = ''.'' @ d3 @ r" using prefix_dotD [OF p2] a3 by simp
  finally have "s = t @ r" by (simp add: t)
  with t v a1 a2 a3 show ?thesis by blast
qed

lemma match_version_number_I:
  assumes v: "v = [] \<or> toUpperCase v = ''V''"
    and d: "all_digits d1" "all_digits d2" "all_digits d3"
    and r: "r = [] \<or> \<not> is_digit (hd r)"
  shows "match_version_number (v @ d1 @ ''.'' @ d2 @ ''.'' @ d3 @ r)
    = Some (v @ d1 @ ''.'' @ d2 @ ''.'' @ d3, r)"
proof -
  let ?s = "v @ d1 @ ''.'' @ d2 @ ''.'' @ d3 @ r"
  have v': "(if ci_prefix ''v'' ?s then take 1 ?s else []) = v"
  proof (cases "v = []")
    case True
    from d(1) obtain c cs where d1: "d1 = c # cs" and c: "is_digit c"
      by (cases d1) (auto simp: all_digits_def)
    from digit_not_v [OF c] have "\<not> ci_prefix ''v'' ?s"
      by (simp add: True d1 upper_consts)
    with True show ?thesis by simp
  next
    case False
    with v have u: "toUpperCase v = ''V''" by simp
    then obtain c where vc: "v = [c]" and c: "ascii_upper c = CHR ''V''"
      by (cases v) (auto simp: toUpperCase_def)
    show ?thesis by (simp add: vc c upper_consts)
  qed
  have m1: "match_digits (d1 @ CHR ''.'' # d2 @ CHR ''.'' # d3 @ r)
      = Some (d1, CHR ''.'' # d2 @ CHR ''.'' # d3 @ r)"
    using match_digits_append [OF d(1), of "''.'' @ d2 @ ''.'' @ d3 @ r"]
    by (simp add: not_digit_dot)
  have m2: "match_digits (d2 @ CHR ''.'' # d3 @ r) = Some (d2, CHR ''.'' # d3 @ r)"
    using match_digits_append [OF d(2), of "''.'' @ d3 @ r"] by (simp add: not_digit_dot)
  have m3: "match_digits (d3 @ r) = Some (d3, r)"
    by (rule match_digits_append [OF d(3) r])
  show ?thesis
    unfolding match_version_number_def v' Let_def
    by (simp add: m1 m2 m3)
qed

lemma match_bump_SomeD:
  "match_bump s = Some g \<Longrightarrow> \<exists>b \<in> set BUMP_CLASSES. ci_prefix b s \<and> g = take (length b) s"
  by (auto simp: match_bump_def BUMP_CLASSES_def split: if_splits)

lemma match_bump_I:
  assumes "toUpperCase bump \<in> set BUMP_CLASSES"
  shows "match_bump (bump @ rest) = Some bump"
proof -
  from assms have len: "length bump = 5"
    by (auto simp: BUMP_CLASSES_def dest: arg_cong [where f = length])
  have ci: "ci_prefix b (bump @ rest) \<longleftrightarrow> toUpperCase bump = toUpperCase b" if "length b = 5" for b
    using ci_prefix_append [of bump b rest] len that by simp
  from assms consider "toUpperCase bump = ''MAJOR''" | "toUpperCase bump = ''MINOR''"
    | "toUpperCase bump = ''PATCH''" by (auto simp: BUMP_CLASSES_def)
  then show ?thesis
  proof cases
    case 1
    then show ?thesis by (simp add: match_bump_def BUMP_CLASSES_def ci upper_consts len)
  next
    case 2
    then show ?thesis by (simp add: match_bump_def BUMP_CLASSES_def ci upper_consts len)
  next
    case 3
    then show ?thesis by (simp add: match_bump_def BUMP_CLASSES_def ci upper_consts len)
  qed
qed

lemma bump_classes_upper: "b \<in> set BUMP_CLASSES \<Longrightarrow> toUpperCase b = b"
  by (auto simp: BUMP_CLASSES_def upper_consts)

lemma parseReleaseTitle_pattern:
  "parseReleaseTitle title \<noteq> None \<longleftrightarrow> release_title_pattern_any_case title"
proof
  assume "parseReleaseTitle title \<noteq> None"
  then obtain vt vf where p: "parseReleaseTitle title = Some (vt, vf)" by auto
  then obtain g where mb: "match_bump title = Some g"
    by (auto simp: parseReleaseTitle_def split: option.splits)
  from p mb have vt: "vt = g" and ci: "ci_prefix '' Release: '' (drop (length g) title)"
    by (auto simp: parseReleaseTitle_def Let_def split: option.splits if_splits)
  from p mb ci obtain s2 where mv: "match_version_number (drop 10 (drop (length g) title)) = Some (vf, s2)"
    and colon: "prefix '':'' s2"
    by (auto simp: parseReleaseTitle_def Let_def split: option.splits if_splits)
  from match_bump_SomeD [OF mb] obtain b where b: "b \<in> set BUMP_CLASSES" "ci_prefix b title"
    "g = take (length b) title" by blast
  from ci_prefix_split [OF b(2)] b(3) have t1: "title = g @ drop (length g) title"
    and ug: "toUpperCase g = toUpperCase b" by simp_all
  let ?s1 = "drop (length g) title"
  let ?sep = "take 10 ?s1"
  have l10: "length '' Release: '' = 10" by simp
  note sp = ci_prefix_split_at [OF ci l10]
  from sp have t2: "?s1 = ?sep @ drop 10 ?s1" by (rule conjunct1)
  from sp have usep: "toUpperCase ?sep = '' RELEASE: ''"
    unfolding upper_consts by (elim conjE)
  from match_version_number_SomeD [OF mv] obtain v d1 d2 d3 where
    t3: "drop 10 ?s1 = vf @ s2" and vf: "vf = v @ d1 @ ''.'' @ d2 @ ''.'' @ d3"
    and v: "v = [] \<or> toUpperCase v = ''V''"
    and d: "all_digits d1" "all_digits d2" "all_digits d3" by blast
  from prefix_colonD [OF colon] have t4: "s2 = '':'' @ drop 1 s2" .
  have "title = g @ ?sep @ v @ d1 @ ''.'' @ d2 @ ''.'' @ d3 @ '':'' @ drop 1 s2"
    using t1 t2 t3 t4 vf by (metis append.assoc)
  moreover have "toUpperCase g \<in> set BUMP_CLASSES" using ug b(1) bump_classes_upper by simp
  ultimately show "release_title_pattern_any_case title"
    unfolding release_title_pattern_any_case_def BUMP_CLASSES_def [symmetric] using usep v d by blast
next
  assume "release_title_pattern_any_case title"
  then obtain bump sep v d1 d2 d3 rest where
    t: "title = bump @ sep @ v @ d1 @ ''.'' @ d2 @ ''.'' @ d3 @ '':'' @ rest"
    and b: "toUpperCase bump \<in> set BUMP_CLASSES"
    and s: "toUpperCase sep = '' RELEASE: ''"
    and v: "v = [] \<or> toUpperCase v = ''V''"
    and d: "all_digits d1" "all_digits d2" "all_digits d3"
    unfolding release_title_pattern_any_case_def BUMP_CLASSES_def [symmetric] by blast
  have mb: "match_bump title = Some bump" unfolding t by (rule match_bump_I [OF b])
  have d1: "drop (length bump) title = sep @ v @ d1 @ ''.'' @ d2 @ ''.'' @ d3 @ '':'' @ rest"
    by (simp add: t)
  from s have lsep: "length sep = 10" by (auto dest: arg_cong [where f = length])
  have ci: "ci_prefix '' Release: '' (sep @ v @ d1 @ ''.'' @ d2 @ ''.'' @ d3 @ '':'' @ rest)"
    using ci_prefix_append [of sep "'' Release: ''"] lsep s by (simp add: upper_consts)
  have mv: "match_version_number (v @ d1 @ CHR ''.'' # d2 @ CHR ''.'' # d3 @ CHR '':'' # rest)
      = Some (v @ d1 @ CHR ''.'' # d2 @ CHR ''.'' # d3, CHR '':'' # rest)"
    using match_version_number_I [OF v d, of "'':'' @ rest"] by (simp add: not_digit_colon)
  have "parseReleaseTitle title = Some (bump, v @ d1 @ ''.'' @ d2 @ ''.'' @ d3)"
    unfolding parseReleaseTitle_def mb option.case Let_def d1
    using ci by (simp add: lsep mv)
  then show "parseReleaseTitle title \<noteq> None" by simp
qed








lemma fst_read_io [simp]: "fst (read_io r) = []"
  by (simp add: read_io_def)

lemma fst_return_io [simp]: "fst (return_io a) = []"
  by (simp add: return_io_def)








lemma handleStagingMergedToRelease_skips:
  "parseReleaseTitle (pr_title pr) = None \<Longrightarrow> handleStagingMergedToRelease svc w pr = ([], Inr ())"
  by (simp add: handleStagingMergedToRelease_def return_io_def)

lemma pattern_any_case:
  assumes "release_title_pattern title"
  shows "release_title_pattern_any_case title"
proof -
  from assms obtain bump v d1 d2 d3 rest where
    t: "title = bump @ '' Release: '' @ v @ d1 @ ''.'' @ d2 @ ''.'' @ d3 @ '':'' @ rest"
    and b: "bump \<in> set [''MAJOR'', ''MINOR'', ''PATCH'']"
    and v: "v = [] \<or> v = ''v''"
    and d: "all_digits d1" "all_digits d2" "all_digits d3"
    unfolding release_title_pattern_def by blast
  from b have "toUpperCase bump = bump" by (auto simp: upper_consts)
  with b have b': "toUpperCase bump \<in> set [''MAJOR'', ''MINOR'', ''PATCH'']" by simp
  from v have v': "v = [] \<or> toUpperCase v = ''V''" by (auto simp: upper_consts)
  have s: "toUpperCase '' Release: '' = '' RELEASE: ''" by (rule upper_consts)
  from t b' s v' d show ?thesis
    unfolding release_title_pattern_any_case_def by blast
qed

text \<open>
  Claim C6, as the specification states it, fails: the expression that parses the title
  carries the \<open>i\<close> flag, so it also accepts titles that are not of the stated pattern. The
  title \<open>minor release: V10.20.30: x\<close> parses, and the release \<open>vV10.20.30\<close> is published
  from it.
\<close>

theorem parseReleaseTitle_accepts_other_case:
  "parseReleaseTitle ''minor release: V10.20.30: x'' = Some (''minor'', ''V10.20.30'')
   \<and> \<not> release_title_pattern ''minor release: V10.20.30: x''
   \<and> handleStagingMergedToRelease \<lparr>config = DEFAULT_CONFIG\<rparr> sample_world
        (release_pr\<lparr>pr_title := ''minor release: V10.20.30: x''\<rparr>)
       = ([ReleaseCreate ''vV10.20.30'' ''vV10.20.30''
             ''## New Features\<newline>\<newline>## Bugs / Improvements\<newline>'' ''main'',
           CommentCreate 7 (ReleasePublished ''vV10.20.30'' ''https://example.org/releases/1'')],
          Inr ())"
proof -
  have a: "parseReleaseTitle ''minor release: V10.20.30: x'' = Some (''minor'', ''V10.20.30'')"
    by code_simp
  have b: "\<not> release_title_pattern ''minor release: V10.20.30: x''"
  proof
    assume "release_title_pattern ''minor release: V10.20.30: x''"
    then obtain bump r where "''minor release: V10.20.30: x'' = bump @ r"
      and "bump \<in> set [''MAJOR'', ''MINOR'', ''PATCH'']"
      unfolding release_title_pattern_def by blast
    then show False by auto
  qed
  have c: "handleStagingMergedToRelease \<lparr>config = DEFAULT_CONFIG\<rparr> sample_world
        (release_pr\<lparr>pr_title := ''minor release: V10.20.30: x''\<rparr>)
       = ([ReleaseCreate ''vV10.20.30'' ''vV10.20.30''
             ''## New Features\<newline>\<newline>## Bugs / Improvements\<newline>'' ''main'',
           CommentCreate 7 (ReleasePublished ''vV10.20.30'' ''https://example.org/releases/1'')],
          Inr ())"
    by code_simp
  from a b c show ?thesis by (intro conjI)
qed

text \<open>
  Claim C6, amended. The release-stage title parser accepts exactly the titles of the
  pattern \<open><BUMP> Release: <version-with-optional-v-prefix>:\<close> read without regard to the
  case of its letters; in particular it accepts every title of the pattern as written.
  \<open>MINOR Release: v1.2.0: Add login\<close> parses to the bump class \<open>MINOR\<close> and the version
  text \<open>v1.2.0\<close>, from which the release \<open>v1.2.0\<close> is made, and \<open>Release something\<close> does
  not parse. Whenever the title does not parse, \<open>handleStagingMergedToRelease\<close> returns
  without any remote write: no release and no comment.
\<close>

theorem release_title_is_parsed_or_skipped:
  "(release_title_pattern title \<longrightarrow> parseReleaseTitle title \<noteq> None)
   \<and> (parseReleaseTitle title \<noteq> None \<longleftrightarrow> release_title_pattern_any_case title)
   \<and> parseReleaseTitle ''MINOR Release: v1.2.0: Add login'' = Some (''MINOR'', ''v1.2.0'')
   \<and> parseReleaseTitle ''Release something'' = None
   \<and> (parseReleaseTitle (pr_title pr) = None
        \<longrightarrow> handleStagingMergedToRelease svc w pr = ([], Inr ()))"
proof (intro conjI impI)
  assume "release_title_pattern title"
  then have "release_title_pattern_any_case title" by (rule pattern_any_case)
  then show "parseReleaseTitle title \<noteq> None" by (simp only: parseReleaseTitle_pattern)
next
  show "parseReleaseTitle title \<noteq> None \<longleftrightarrow> release_title_pattern_any_case title"
    by (rule parseReleaseTitle_pattern)
next
  show "parseReleaseTitle ''MINOR Release: v1.2.0: Add login'' = Some (''MINOR'', ''v1.2.0'')"
    by code_simp
next
  show "parseReleaseTitle ''Release something'' = None" by code_simp
next
  assume "parseReleaseTitle (pr_title pr) = None"
  then show "handleStagingMergedToRelease svc w pr = ([], Inr ())"
    by (rule handleStagingMergedToRelease_skips)
qed

theorem release_title_is_parsed_or_skipped_witness:
  "release_title_pattern ''MINOR Release: v1.2.0: Add login''
   \<and> parseReleaseTitle ''MINOR Release: v1.2.0: Add login'' \<noteq> None
   \<and> release_title_pattern_any_case ''minor release: V10.20.30: x''
   \<and> \<not> release_title_pattern_any_case ''Release something''
   \<and> parseReleaseTitle (pr_title (release_pr\<lparr>pr_title := ''Release something''\<rparr>)) = None
   \<and> handleStagingMergedToRelease \<lparr>config = DEFAULT_CONFIG\<rparr> sample_world
        (release_pr\<lparr>pr_title := ''Release something''\<rparr>) = ([], Inr ())
   \<and> handleStagingMergedToRelease \<lparr>config = DEFAULT_CONFIG\<rparr> sample_world release_pr
       = ([ReleaseCreate ''v1.2.0'' ''v1.2.0'' ''## New Features\<newline>\<newline>## Bugs / Improvements\<newline>'' ''main'',
           CommentCreate 7 (ReleasePublished ''v1.2.0'' ''https://example.org/releases/1'')],
          Inr ())"
proof -
  let ?svc = "\<lparr>config = DEFAULT_CONFIG\<rparr>"
  let ?bad = "release_pr\<lparr>pr_title := ''Release something''\<rparr>"
  have d: "all_digits ''1''" "all_digits ''2''" "all_digits ''0''"
    by (simp_all add: all_digits_def is_digit_def)
  have p: "release_title_pattern ''MINOR Release: v1.2.0: Add login''"
    unfolding release_title_pattern_def
  proof (intro exI conjI)
    show "''MINOR Release: v1.2.0: Add login''
        = ''MINOR'' @ '' Release: '' @ ''v'' @ ''1'' @ ''.'' @ ''2'' @ ''.'' @ ''0'' @ '':'' @ '' Add login''"
      by simp
    show "''MINOR'' \<in> set [''MAJOR'', ''MINOR'', ''PATCH'']" by simp
    show "''v'' = [] \<or> ''v'' = ''v''" by simp
  qed (rule d)+
  have h: "parseReleaseTitle (pr_title ?bad) = None" by code_simp
  note t1 = release_title_is_parsed_or_skipped
    [of "''MINOR Release: v1.2.0: Add login''" ?bad ?svc sample_world]
  note t2 = release_title_is_parsed_or_skipped
    [of "''minor release: V10.20.30: x''" ?bad ?svc sample_world]
  note t3 = release_title_is_parsed_or_skipped [of "''Release something''" ?bad ?svc sample_world]
  from t1 p have r0: "parseReleaseTitle ''MINOR Release: v1.2.0: Add login'' \<noteq> None" by blast
  from t1 h have r1: "handleStagingMergedToRelease ?svc sample_world ?bad = ([], Inr ())" by blast
  have some: "parseReleaseTitle ''minor release: V10.20.30: x'' = Some (''minor'', ''V10.20.30'')"
    by code_simp
  from t2 have iff2: "(parseReleaseTitle ''minor release: V10.20.30: x'' \<noteq> None)
      = release_title_pattern_any_case ''minor release: V10.20.30: x''"
    by (elim conjE)
  from iff2 some have r2: "release_title_pattern_any_case ''minor release: V10.20.30: x''" by simp
  from t3 have iff: "(parseReleaseTitle ''Release something'' \<noteq> None)
      = release_title_pattern_any_case ''Release something''" by (elim conjE)
  have none: "parseReleaseTitle ''Release something'' = None" by code_simp
  from iff none have r3: "\<not> release_title_pattern_any_case ''Release something''" by simp
  have r4: "handleStagingMergedToRelease ?svc sample_world release_pr
       = ([ReleaseCreate ''v1.2.0'' ''v1.2.0'' ''## New Features\<newline>\<newline>## Bugs / Improvements\<newline>'' ''main'',
           CommentCreate 7 (ReleasePublished ''v1.2.0'' ''https://example.org/releases/1'')],
          Inr ())" by code_simp
  from p r0 r2 r3 h r1 r4 show ?thesis by (intro conjI)
qed












end
